theory Spec2Isabelle
  imports Complex_Main "HOL-Library.Log_Nat" "HOL-Library.AList"
begin

section \<open>Python numbers\<close>

text \<open>
  Python's \<open>int\<close> is unbounded and is modelled by \<^typ>\<open>int\<close>. Python's \<open>float\<close> is IEEE
  binary64. A finite float is the rational number it denotes; the other floats are the two
  infinities and NaN. Every float operation is the exact operation followed by rounding to
  the nearest binary64 value, ties to the even significand, and a result whose magnitude
  reaches \<open>2 ^ 1024 - 2 ^ 970\<close> (half a step above the largest finite float) is an infinity.
  The sign of zero is not modelled, and neither are subnormal numbers: no operation of the
  program produces one from operands that are zero or normal.
\<close>

datatype py_error = OverflowError | ValueError

datatype pyfloat = Fin rat | PInf | NInf | NaN

text \<open>\<open>ilog2 x\<close> is the binary exponent of a positive \<open>x\<close>: the integer \<open>E\<close> with
  \<open>2 ^ E \<le> x < 2 ^ (E + 1)\<close>.\<close>

definition ilog2 :: "rat \<Rightarrow> int" where
  "ilog2 x = (if 1 \<le> x then bitlen \<lfloor>x\<rfloor> - 1 else - bitlen (\<lceil>1 / x\<rceil> - 1))"

text \<open>Rounding to the nearest integer, ties to even.\<close>

definition round_half_even :: "rat \<Rightarrow> int" where
  "round_half_even y =
     (let f = \<lfloor>y\<rfloor>; r = y - of_int f
      in if r < 1 / 2 then f
         else if 1 / 2 < r then f + 1
         else if even f then f else f + 1)"

text \<open>\<open>fl x\<close> rounds \<open>x\<close> to 53 significant bits: the spacing of the floats around \<open>x\<close> is
  \<open>2 ^ (ilog2 |x| - 52)\<close>.\<close>

definition fl :: "rat \<Rightarrow> rat" where
  "fl x =
     (if x = 0 then 0
      else let e = ilog2 \<bar>x\<bar> - 52
           in sgn x * of_int (round_half_even (\<bar>x\<bar> / 2 powi e)) * 2 powi e)"

definition float_limit :: rat where
  "float_limit = 2 ^ 1024 - 2 ^ 970"

text \<open>The float that an exact result becomes.\<close>

definition to_float :: "rat \<Rightarrow> pyfloat" where
  "to_float x =
     (if float_limit \<le> x then PInf
      else if x \<le> - float_limit then NInf
      else Fin (fl x))"

text \<open>Conversion of an \<open>int\<close> operand in mixed arithmetic. Python raises
  \<open>OverflowError\<close> (int too large to convert to float) where the result would be an
  infinity.\<close>

definition float_of_int :: "int \<Rightarrow> py_error + pyfloat" where
  "float_of_int n =
     (if float_limit \<le> \<bar>of_int n\<bar> then Inl OverflowError else Inr (Fin (fl (of_int n))))"

fun fmul :: "pyfloat \<Rightarrow> pyfloat \<Rightarrow> pyfloat" where
  "fmul (Fin a) (Fin b) = to_float (a * b)"
| "fmul NaN y = NaN"
| "fmul x NaN = NaN"
| "fmul (Fin a) PInf = (if a = 0 then NaN else if 0 < a then PInf else NInf)"
| "fmul (Fin a) NInf = (if a = 0 then NaN else if 0 < a then NInf else PInf)"
| "fmul PInf (Fin b) = (if b = 0 then NaN else if 0 < b then PInf else NInf)"
| "fmul NInf (Fin b) = (if b = 0 then NaN else if 0 < b then NInf else PInf)"
| "fmul PInf PInf = PInf"
| "fmul PInf NInf = NInf"
| "fmul NInf PInf = NInf"
| "fmul NInf NInf = PInf"

fun fadd :: "pyfloat \<Rightarrow> pyfloat \<Rightarrow> pyfloat" where
  "fadd (Fin a) (Fin b) = to_float (a + b)"
| "fadd NaN y = NaN"
| "fadd x NaN = NaN"
| "fadd PInf NInf = NaN"
| "fadd NInf PInf = NaN"
| "fadd PInf y = PInf"
| "fadd x PInf = PInf"
| "fadd NInf y = NInf"
| "fadd x NInf = NInf"

fun fabs :: "pyfloat \<Rightarrow> pyfloat" where
  "fabs (Fin a) = Fin \<bar>a\<bar>"
| "fabs PInf = PInf"
| "fabs NInf = PInf"
| "fabs NaN = NaN"

text \<open>\<open>round(x)\<close>, \<open>int(x)\<close> and \<open>math.ceil(x)\<close> on a float: the nearest integer with ties to
  even, the truncation toward zero and the ceiling. On an infinity they raise
  \<open>OverflowError\<close>, on NaN \<open>ValueError\<close>.\<close>

fun py_round :: "pyfloat \<Rightarrow> py_error + int" where
  "py_round (Fin x) = Inr (round_half_even x)"
| "py_round NaN = Inl ValueError"
| "py_round x = Inl OverflowError"

definition trunc_zero :: "rat \<Rightarrow> int" where
  "trunc_zero x = (if 0 \<le> x then \<lfloor>x\<rfloor> else \<lceil>x\<rceil>)"

fun py_int :: "pyfloat \<Rightarrow> py_error + int" where
  "py_int (Fin x) = Inr (trunc_zero x)"
| "py_int NaN = Inl ValueError"
| "py_int x = Inl OverflowError"

fun py_ceil :: "pyfloat \<Rightarrow> py_error + int" where
  "py_ceil (Fin x) = Inr \<lceil>x\<rceil>"
| "py_ceil NaN = Inl ValueError"
| "py_ceil x = Inl OverflowError"

text \<open>The float literals of the program: the binary64 values nearest to 0.1, 0.05 and 0.01.\<close>

definition lit_0_1 :: rat where
  "lit_0_1 = 3602879701896397 / 36028797018963968"

definition lit_0_05 :: rat where
  "lit_0_05 = 3602879701896397 / 72057594037927936"

definition lit_0_01 :: rat where
  "lit_0_01 = 5764607523034235 / 576460752303423488"

text \<open>\<open>random.randint(a, b)\<close> of the standard library returns an integer \<open>N\<close> with
  \<open>a \<le> N \<le> b\<close>, each of them equally likely. Its result is a function of what the
  generator draws; the model takes the raw draw \<open>x\<close>, a natural number, as an input, and
  \<open>randint a b x\<close> runs through \<open>a, ..., b\<close> once while \<open>x\<close> runs through any \<open>b - a + 1\<close>
  successive numbers.\<close>

definition randint :: "int \<Rightarrow> int \<Rightarrow> nat \<Rightarrow> int" where
  "randint a b x = a + int (x mod nat (b - a + 1))"

section \<open>Artifact data (Artifact/artifact\_data.py)\<close>

text \<open>A Python \<open>str\<close> is a sequence of Unicode code points. The rarity names are not ASCII,
  so a string is modelled by the list of its code points.\<close>

type_synonym ustr = "nat list"

text \<open>The string literals of the program that matter: the five rarity names of the yield
  table, each starting with an emoji, and the constructor's default rarity, which has none.\<close>

definition rarity_common :: ustr where
  "rarity_common = [9898, 26222, 36890]"

definition rarity_uncommon :: ustr where
  "rarity_uncommon = [127807, 32597, 35265]"

definition rarity_rare :: ustr where
  "rarity_rare = [128310, 31232, 26377]"

definition rarity_epic :: ustr where
  "rarity_epic = [128142, 21490, 35799]"

definition rarity_legendary :: ustr where
  "rarity_legendary = [128081, 20256, 35828]"

definition rarity_default :: ustr where
  "rarity_default = [26222, 36890]"

record artifact =
  artifact_id :: int
  name :: ustr
  description :: ustr
  level :: int
  base_yield :: int
  yield_multiplier :: rat
  rarity :: ustr
  sub_stats :: "(ustr \<times> int) list list"
  is_locked :: bool

text \<open>\<open>Artifact.__init__\<close>.\<close>

definition Artifact :: "int \<Rightarrow> ustr \<Rightarrow> ustr \<Rightarrow> ustr \<Rightarrow> artifact" where
  "Artifact aid nm descr rar =
     \<lparr>artifact_id = aid, name = nm, description = descr, level = 1, base_yield = 1,
      yield_multiplier = 1, rarity = rar, sub_stats = [], is_locked = False\<rparr>"

text \<open>The global \<open>artifact_data: Dict[int, Artifact]\<close>. A Python dict keeps insertion order,
  and the eviction scan depends on it, so the dict is an association list: assignment to a
  present key replaces the value in place, assignment to a new key appends, \<open>del\<close> removes
  the key, \<open>len\<close> is the length. A dict has no duplicate keys:
  \<open>distinct (map fst d)\<close>.\<close>

type_synonym artifact_store = "(int \<times> artifact) list"

definition add_new_artifact :: "artifact \<Rightarrow> artifact_store \<Rightarrow> artifact_store" where
  "add_new_artifact a d = AList.update (artifact_id a) a d"

definition get_artifact_by_id :: "int \<Rightarrow> artifact_store \<Rightarrow> artifact option" where
  "get_artifact_by_id aid d = map_of d aid"

definition update_artifact :: "artifact \<Rightarrow> artifact_store \<Rightarrow> bool \<times> artifact_store" where
  "update_artifact a d =
     (if artifact_id a \<in> fst ` set d then (True, AList.update (artifact_id a) a d)
      else (False, d))"

definition delete_artifact :: "int \<Rightarrow> artifact_store \<Rightarrow> bool \<times> artifact_store" where
  "delete_artifact aid d =
     (if aid \<in> fst ` set d then (True, AList.delete aid d) else (False, d))"

definition is_artifact_storage_full :: "artifact_store \<Rightarrow> bool" where
  "is_artifact_storage_full d = (20 \<le> length d)"

definition lock_artifact :: "int \<Rightarrow> artifact_store \<Rightarrow> bool \<times> artifact_store" where
  "lock_artifact aid d =
     (case map_of d aid of
        None \<Rightarrow> (False, d)
      | Some a \<Rightarrow> (True, AList.update aid (a\<lparr>is_locked := True\<rparr>) d))"

definition unlock_artifact :: "int \<Rightarrow> artifact_store \<Rightarrow> bool \<times> artifact_store" where
  "unlock_artifact aid d =
     (case map_of d aid of
        None \<Rightarrow> (False, d)
      | Some a \<Rightarrow> (True, AList.update aid (a\<lparr>is_locked := False\<rparr>) d))"

text \<open>One entry of the persisted JSON document: \<open>name\<close> is read with \<open>[...]\<close>, every other
  field with \<open>.get(key, default)\<close>, so it may be missing.\<close>

record artifact_info =
  info_name :: ustr
  info_description :: "ustr option"
  info_level :: "int option"
  info_base_yield :: "int option"
  info_yield_multiplier :: "rat option"
  info_rarity :: "ustr option"
  info_sub_stats :: "(ustr \<times> int) list list option"
  info_is_locked :: "bool option"
  info_locked :: "bool option"

text \<open>\<open>d.get(key, default)\<close> on an optional field.\<close>

definition dict_get :: "'a option \<Rightarrow> 'a \<Rightarrow> 'a" where
  "dict_get field dflt = (case field of None \<Rightarrow> dflt | Some v \<Rightarrow> v)"

text \<open>The body of the loop of \<open>load_artifact_data\<close>: the artifact built from one entry.\<close>

definition artifact_of_info :: "int \<Rightarrow> artifact_info \<Rightarrow> artifact" where
  "artifact_of_info aid info =
     (Artifact aid (info_name info) [] rarity_default)
       \<lparr>description := dict_get (info_description info) [],
        level := dict_get (info_level info) 1,
        base_yield := dict_get (info_base_yield info) 0,
        yield_multiplier := dict_get (info_yield_multiplier info) 1,
        rarity := dict_get (info_rarity info) rarity_default,
        sub_stats := dict_get (info_sub_stats info) [],
        is_locked := dict_get (info_is_locked info) (dict_get (info_locked info) False)\<rparr>"

definition load_artifact_data :: "(int \<times> artifact_info) list \<Rightarrow> artifact_store" where
  "load_artifact_data data =
     foldl (\<lambda>d (aid, info). AList.update aid (artifact_of_info aid info) d) [] data"

section \<open>The user ledger (core/user\_data.py)\<close>

text \<open>Modelled from the spec: the module \<open>core/user_data.py\<close> is not among the sources.
  The spec describes it as a ledger reachable by user identifier that exposes the coin
  balance, the artifact-upgrade-item count and the artifact-reroll-item count.\<close>

record user =
  coins :: int
  artifact_upgrade_items :: int
  artifact_re_roll_items :: int

type_synonym user_store = "string \<Rightarrow> user option"

text \<open>Modelled from the spec: \<open>user_data.get_user_by_id\<close> is missing; it reads the ledger
  entry of a user, if there is one.\<close>

definition get_user_by_id :: "string \<Rightarrow> user_store \<Rightarrow> user option" where
  "get_user_by_id userId us = us userId"

text \<open>Modelled from the spec: \<open>user_data.update_user_coins\<close> is missing; it is the ledger
  operation \<open>AdjustBalance(user, delta)\<close>, which adds the delta to the coin balance and is
  visible to the next read. A user without a ledger entry has nothing to adjust.\<close>

definition update_user_coins :: "string \<Rightarrow> int \<Rightarrow> user_store \<Rightarrow> user_store" where
  "update_user_coins userId delta us =
     (case us userId of
        None \<Rightarrow> us
      | Some u \<Rightarrow> us(userId \<mapsto> u\<lparr>coins := coins u + delta\<rparr>))"

text \<open>Modelled from the spec: \<open>user_data.add_artifact_upgrade_items\<close> is missing; it is the
  ledger operation \<open>AdjustUpgradeItems(user, delta)\<close>.\<close>

definition add_artifact_upgrade_items :: "string \<Rightarrow> int \<Rightarrow> user_store \<Rightarrow> user_store" where
  "add_artifact_upgrade_items userId delta us =
     (case us userId of
        None \<Rightarrow> us
      | Some u \<Rightarrow> us(userId \<mapsto> u\<lparr>artifact_upgrade_items := artifact_upgrade_items u + delta\<rparr>))"

text \<open>Modelled from the spec: \<open>user_data.add_artifact_re_roll_items\<close> is missing; it is the
  ledger operation \<open>AdjustRerollItems(user, delta)\<close>.\<close>

definition add_artifact_re_roll_items :: "string \<Rightarrow> int \<Rightarrow> user_store \<Rightarrow> user_store" where
  "add_artifact_re_roll_items userId delta us =
     (case us userId of
        None \<Rightarrow> us
      | Some u \<Rightarrow> us(userId \<mapsto> u\<lparr>artifact_re_roll_items := artifact_re_roll_items u + delta\<rparr>))"

section \<open>The artifact engine (Artifact/artifactCore.py)\<close>

text \<open>The state the engine works on: the loaded collection of the current user and the
  ledger.\<close>

record world =
  artifact_data :: artifact_store
  user_data :: user_store

subsection \<open>Disassembly yield\<close>

definition rarity_to_items :: "(ustr \<times> int) list" where
  "rarity_to_items =
     [(rarity_common, 1), (rarity_uncommon, 5), (rarity_rare, 20), (rarity_epic, 50),
      (rarity_legendary, 100)]"

text \<open>\<open>base_items * 0.1 * (artifact.level - 1)\<close> is evaluated in floats, left to right, each
  \<open>int\<close> operand converted first; \<open>int(...)\<close> truncates the result. Both the conversion of
  \<open>artifact.level - 1\<close> and \<open>int(...)\<close> can raise.\<close>

definition get_reinforcement_items_from_disassembly :: "artifact \<Rightarrow> py_error + int" where
  "get_reinforcement_items_from_disassembly a =
     (let base_items = dict_get (map_of rarity_to_items (rarity a)) 0
      in case float_of_int base_items of
           Inl e \<Rightarrow> Inl e
         | Inr fb \<Rightarrow>
             let tenth = fmul fb (Fin lit_0_1)
             in case float_of_int (level a - 1) of
                  Inl e \<Rightarrow> Inl e
                | Inr fn \<Rightarrow>
                    (case py_int (fmul tenth fn) of
                       Inl e \<Rightarrow> Inl e
                     | Inr extra_items \<Rightarrow>
                         let total_items = base_items + extra_items in Inr total_items))"

text \<open>The yield as the specification words it: base plus ten percent of base per level above
  one, in exact arithmetic, truncated toward zero.\<close>

definition spec_yield :: "int \<Rightarrow> int \<Rightarrow> int" where
  "spec_yield base lvl = base + trunc_zero (of_int base * (1 / 10) * of_int (lvl - 1))"

subsection \<open>Adding an artifact\<close>

text \<open>The eviction scan. Its loop state is the pair of \<open>lowest_level_artifact_id\<close> and
  \<open>lowest_level\<close>; the initial \<open>float('inf')\<close> of the latter, above every level, is
  \<open>None\<close>.\<close>

definition level_below :: "int \<Rightarrow> int option \<Rightarrow> bool" where
  "level_below l lowest_level = (case lowest_level of None \<Rightarrow> True | Some m \<Rightarrow> l < m)"

definition scan_step :: "int option \<times> int option \<Rightarrow> int \<times> artifact \<Rightarrow> int option \<times> int option" where
  "scan_step st entry =
     (case entry of (art_id, art) \<Rightarrow>
        if \<not> is_locked art \<and> level_below (level art) (snd st)
        then (Some art_id, Some (level art))
        else st)"

text \<open>What the loop state records after the entries \<open>ps\<close>: nothing while every entry
  seen is locked, else the key and the level of an unlocked entry of lowest level.\<close>

definition scan_inv :: "artifact_store \<Rightarrow> int option \<times> int option \<Rightarrow> bool" where
  "scan_inv ps st =
     (case fst st of
        None \<Rightarrow> snd st = None \<and> (\<forall>(k, b) \<in> set ps. is_locked b)
      | Some i \<Rightarrow>
          (\<exists>art. (i, art) \<in> set ps \<and> \<not> is_locked art \<and> snd st = Some (level art)
             \<and> (\<forall>(k, b) \<in> set ps. \<not> is_locked b \<longrightarrow> level art \<le> level b)))"

definition lowest_level_artifact_id :: "artifact_store \<Rightarrow> int option" where
  "lowest_level_artifact_id d = fst (foldl scan_step (None, None) d)"

text \<open>A function that changes the state returns its outcome, the value returned or the
  exception raised, together with the state it leaves. In the branch that disassembles the
  new artifact the yield is computed first, so an exception there leaves the state as it
  was.\<close>

definition add_new_artifact_to_user ::
  "string \<Rightarrow> artifact \<Rightarrow> world \<Rightarrow> (py_error + unit) \<times> world" where
  "add_new_artifact_to_user userId a w =
     (if is_artifact_storage_full (artifact_data w) then
        (case lowest_level_artifact_id (artifact_data w) of
           Some lid \<Rightarrow>
             (Inr (),
              w\<lparr>artifact_data :=
                  add_new_artifact a (snd (delete_artifact lid (artifact_data w)))\<rparr>)
         | None \<Rightarrow>
             (case get_reinforcement_items_from_disassembly a of
                Inl e \<Rightarrow> (Inl e, w)
              | Inr reinforcement_items \<Rightarrow>
                  (Inr (),
                   w\<lparr>user_data :=
                       add_artifact_upgrade_items userId reinforcement_items (user_data w)\<rparr>)))
      else (Inr (), w\<lparr>artifact_data := add_new_artifact a (artifact_data w)\<rparr>))"

subsection \<open>Explicit disassembly\<close>

datatype disassemble_msg = DisassembleMissing | DisassembleLocked | Disassembled int
  | DisassembleFailed

definition disassemble_artifact ::
  "string \<Rightarrow> int \<Rightarrow> world \<Rightarrow> (py_error + bool \<times> disassemble_msg) \<times> world" where
  "disassemble_artifact userId aid w =
     (case get_artifact_by_id aid (artifact_data w) of
        None \<Rightarrow> (Inr (False, DisassembleMissing), w)
      | Some a \<Rightarrow>
          if is_locked a then (Inr (False, DisassembleLocked), w)
          else
            (case get_reinforcement_items_from_disassembly a of
               Inl e \<Rightarrow> (Inl e, w)
             | Inr reinforcement_items \<Rightarrow>
                 let (success, d) = delete_artifact aid (artifact_data w)
                 in if success then
                      (Inr (True, Disassembled reinforcement_items),
                       \<lparr>artifact_data = d,
                        user_data =
                          add_artifact_upgrade_items userId reinforcement_items (user_data w)\<rparr>)
                    else (Inr (False, DisassembleFailed), w\<lparr>artifact_data := d\<rparr>)))"

subsection \<open>Generation and the lottery\<close>

text \<open>The raw draws behind the calls to \<open>random\<close>, in the order the program makes them. The
  words and sentences chosen for name and description are taken as drawn; \<open>rnd_ids\<close> are the
  successive draws behind \<open>random.randint(1, 99999)\<close> in the loop that looks for an unused
  id.\<close>

record rng =
  rnd_roll :: nat
  rnd_name :: ustr
  rnd_description :: ustr
  rnd_rarity_roll :: nat
  rnd_ids :: "nat list"
  rnd_reinforcement :: nat
  rnd_reward :: nat

definition rarity_of_roll :: "int \<Rightarrow> ustr" where
  "rarity_of_roll rarity_roll =
     (if rarity_roll \<le> 50 then rarity_common
      else if rarity_roll \<le> 80 then rarity_uncommon
      else if rarity_roll \<le> 95 then rarity_rare
      else if rarity_roll \<le> 99 then rarity_epic
      else rarity_legendary)"

text \<open>The loop \<open>while True: artifact_id = random.randint(1, 99999) ...\<close> ends at the first
  draw whose id is not a key of the collection. \<open>None\<close>: none of the given draws ended
  it.\<close>

fun pick_artifact_id :: "nat list \<Rightarrow> artifact_store \<Rightarrow> int option" where
  "pick_artifact_id [] d = None"
| "pick_artifact_id (x # xs) d =
     (let artifact_id = randint 1 99999 x
      in if artifact_id \<notin> fst ` set d then Some artifact_id else pick_artifact_id xs d)"

definition generate_random_artifact ::
  "rng \<Rightarrow> string \<Rightarrow> world \<Rightarrow> ((py_error + artifact) \<times> world) option" where
  "generate_random_artifact r userId w =
     (let rarity_roll = randint 1 100 (rnd_rarity_roll r);
          rar = rarity_of_roll rarity_roll
      in case pick_artifact_id (rnd_ids r) (artifact_data w) of
           None \<Rightarrow> None
         | Some aid \<Rightarrow>
             let a = Artifact aid (rnd_name r) (rnd_description r) rar
             in (case add_new_artifact_to_user userId a w of
                   (Inl e, w') \<Rightarrow> Some (Inl e, w')
                 | (Inr u, w') \<Rightarrow> Some (Inr a, w')))"

datatype lottery_msg = NotEnoughCoins | FoundArtifact artifact | GotReRollItem
  | GotUpgradeItems int | GotCoins int

definition draw_artifact_lottery ::
  "rng \<Rightarrow> string \<Rightarrow> int \<Rightarrow> world \<Rightarrow> ((py_error + bool \<times> lottery_msg) \<times> world) option" where
  "draw_artifact_lottery r userId user_coins w =
     (let draw_cost = 100 in
      if user_coins < draw_cost then Some (Inr (False, NotEnoughCoins), w)
      else
        let w1 = w\<lparr>user_data := update_user_coins userId (- draw_cost) (user_data w)\<rparr>;
            roll = randint 1 100 (rnd_roll r)
        in if roll \<le> 5 then
             (case generate_random_artifact r userId w1 of
                None \<Rightarrow> None
              | Some (Inl e, w2) \<Rightarrow> Some (Inl e, w2)
              | Some (Inr a, w2) \<Rightarrow> Some (Inr (True, FoundArtifact a), w2))
           else if roll \<le> 15 then
             Some (Inr (True, GotReRollItem),
                   w1\<lparr>user_data := add_artifact_re_roll_items userId 1 (user_data w1)\<rparr>)
           else if roll \<le> 35 then
             (let reinforcement_items = randint 1 3 (rnd_reinforcement r)
              in Some (Inr (True, GotUpgradeItems reinforcement_items),
                       w1\<lparr>user_data :=
                            add_artifact_upgrade_items userId reinforcement_items (user_data w1)\<rparr>))
           else
             (let reward_coins = randint 1 120 (rnd_reward r)
              in Some (Inr (True, GotCoins reward_coins),
                       w1\<lparr>user_data := update_user_coins userId reward_coins (user_data w1)\<rparr>)))"

subsection \<open>Enhancement\<close>

datatype enhance_msg = EnhanceMissing | ItemsShort int int | CoinsShort int int
  | Enhanced int int int

text \<open>\<open>artifact\<close> is the stored object itself, so \<open>artifact.level += 1\<close> already changes the
  entry under the key \<open>artifact_id\<close>; \<open>update_artifact\<close> then stores the same object under
  the key of its own \<open>artifact_id\<close> field.\<close>

definition enhance_artifact ::
  "string \<Rightarrow> int \<Rightarrow> int \<Rightarrow> world \<Rightarrow> (bool \<times> enhance_msg) \<times> world" where
  "enhance_artifact userId aid reinforcement_items w =
     (case get_artifact_by_id aid (artifact_data w) of
        None \<Rightarrow> ((False, EnhanceMissing), w)
      | Some art \<Rightarrow>
          let required_items = 2 * level art;
              required_coins = 100 * level art
          in if reinforcement_items < required_items then
               ((False, ItemsShort required_items reinforcement_items), w)
             else
               (case get_user_by_id userId (user_data w) of
                  None \<Rightarrow> ((False, CoinsShort required_coins 0), w)
                | Some u \<Rightarrow>
                    if coins u < required_coins then
                      ((False, CoinsShort required_coins (coins u)), w)
                    else
                      let art' = art\<lparr>level := level art + 1\<rparr>;
                          d1 = AList.update aid art' (artifact_data w);
                          us1 = add_artifact_upgrade_items userId (- required_items) (user_data w);
                          us2 = update_user_coins userId (- required_coins) us1;
                          d2 = snd (update_artifact art' d1)
                      in ((True, Enhanced (level art') required_items required_coins),
                          \<lparr>artifact_data = d2, user_data = us2\<rparr>)))"

section \<open>Stock trading commands (plugin.py)\<close>

text \<open>One user entry of \<open>boom_data.json\<close>: the keys \<open>"gold"\<close> and \<open>"stocks"\<close> may be missing;
  \<open>"stocks"\<close> maps a stock symbol to the number of shares held.\<close>

record boom_user =
  gold :: "int option"
  stocks :: "(string \<Rightarrow> int option) option"

type_synonym boom_store = "string \<Rightarrow> boom_user option"

text \<open>The state of the trading commands: the current price of every existing symbol (what
  \<open>stock.get_stock_info(symbol).price\<close> returns; the module \<open>stock\<close> is not among the sources,
  so its price table is a component of the state that the commands only read; a price is a
  finite float), the user entries of \<open>boom_data.json\<close>, and the \<open>weight\<close> stored for a
  symbol in \<open>stock_data.json\<close>, if any.\<close>

record market =
  stock_price :: "string \<Rightarrow> rat option"
  boom_data :: boom_store
  stock_weight :: "string \<Rightarrow> pyfloat option"

text \<open>\<open>BoomDataManager.get_gold\<close> and \<open>BoomDataManager.add_gold\<close>; the latter registers an
  unknown user with 10 gold first and never lets the balance drop below 0.\<close>

definition get_gold :: "string \<Rightarrow> boom_store \<Rightarrow> int" where
  "get_gold uid data = (case data uid of None \<Rightarrow> 0 | Some u \<Rightarrow> dict_get (gold u) 0)"

definition add_gold :: "string \<Rightarrow> int \<Rightarrow> boom_store \<Rightarrow> boom_store" where
  "add_gold uid amount data =
     (let u = dict_get (data uid) \<lparr>gold = Some 10, stocks = None\<rparr>
      in data(uid \<mapsto> u\<lparr>gold := Some (max 0 (dict_get (gold u) 0 + amount))\<rparr>))"

text \<open>Both commands compute the price of the order and the fee in the same way:
  \<open>total_price = int(round(stock_info.price * quantity))\<close>,
  \<open>fee = math.ceil(total_price * 0.05)\<close>, raised to 1 when below. The conversion of an
  \<open>int\<close> operand and the rounding of an infinite product raise.\<close>

definition total_price_of :: "rat \<Rightarrow> int \<Rightarrow> py_error + int" where
  "total_price_of price quantity =
     (case float_of_int quantity of
        Inl e \<Rightarrow> Inl e
      | Inr fq \<Rightarrow> py_round (fmul (Fin price) fq))"

definition fee_of :: "int \<Rightarrow> py_error + int" where
  "fee_of total_price =
     (case float_of_int total_price of
        Inl e \<Rightarrow> Inl e
      | Inr ft \<Rightarrow>
          (case py_ceil (fmul ft (Fin lit_0_05)) of
             Inl e \<Rightarrow> Inl e
           | Inr fee \<Rightarrow> Inr (if fee < 1 then 1 else fee)))"

text \<open>The weight update of both commands runs inside \<open>try: ... except Exception\<close>, which
  logs and drops whatever is raised, so a failed update leaves the stored weights as they
  are. \<open>required_per_unit = max(1, int(round(10 * (1 + abs(cur_weight)))))\<close>; \<open>step\<close> is
  the literal \<open>-0.01\<close> of the buy handler or \<open>0.01\<close> of the sell handler.\<close>

definition required_per_unit_of :: "pyfloat \<Rightarrow> py_error + int" where
  "required_per_unit_of cur_weight =
     (case py_round (fmul (Fin 10) (fadd (Fin 1) (fabs cur_weight))) of
        Inl e \<Rightarrow> Inl e
      | Inr n \<Rightarrow> Inr (max 1 n))"

definition update_weight ::
  "rat \<Rightarrow> string \<Rightarrow> int \<Rightarrow> (string \<Rightarrow> pyfloat option) \<Rightarrow> (string \<Rightarrow> pyfloat option)" where
  "update_weight step symbol quantity weights =
     (let cur_weight = dict_get (weights symbol) (Fin 0)
      in case required_per_unit_of cur_weight of
           Inl e \<Rightarrow> weights
         | Inr required_per_unit \<Rightarrow>
             let units = quantity div required_per_unit
             in if 0 < units then
                  (case float_of_int units of
                     Inl e \<Rightarrow> weights
                   | Inr fu \<Rightarrow>
                       let weight_add = fmul (Fin step) fu;
                           new_weight = fadd cur_weight weight_add
                       in weights(symbol \<mapsto> new_weight))
                else weights)"

datatype trade_msg = BadQuantity | NoSuchStock | NotEnoughGold | NotHolding | NotEnoughShares
  | FeeTooHigh | Bought int int | Sold int int

text \<open>\<open>BuyStockCommand.execute\<close>, from the parsed quantity on. The price and the fee are
  computed before anything is written, so an exception there leaves the state as it
  was.\<close>

definition BuyStockCommand_execute ::
  "string \<Rightarrow> string \<Rightarrow> int \<Rightarrow> market \<Rightarrow> (py_error + bool \<times> trade_msg) \<times> market" where
  "BuyStockCommand_execute uid symbol quantity m =
     (if quantity \<le> 0 then (Inr (False, BadQuantity), m)
      else
        case stock_price m symbol of
          None \<Rightarrow> (Inr (False, NoSuchStock), m)
        | Some price \<Rightarrow>
            (case total_price_of price quantity of
               Inl e \<Rightarrow> (Inl e, m)
             | Inr total_price \<Rightarrow>
                 (case fee_of total_price of
                    Inl e \<Rightarrow> (Inl e, m)
                  | Inr fee \<Rightarrow>
                      let current_gold = get_gold uid (boom_data m)
                      in if current_gold < total_price + fee then (Inr (False, NotEnoughGold), m)
                         else
                           let data1 = add_gold uid (- (total_price + fee)) (boom_data m);
                               u = dict_get (data1 uid) \<lparr>gold = None, stocks = None\<rparr>;
                               held = dict_get (stocks u) Map.empty;
                               held' = held(symbol \<mapsto> dict_get (held symbol) 0 + quantity);
                               data2 = data1(uid \<mapsto> u\<lparr>stocks := Some held'\<rparr>);
                               weights = update_weight (- lit_0_01) symbol quantity (stock_weight m)
                           in (Inr (True, Bought total_price fee),
                               m\<lparr>boom_data := data2, stock_weight := weights\<rparr>))))"

text \<open>\<open>SellStockCommand.execute\<close>, from the parsed quantity on.\<close>

definition SellStockCommand_execute ::
  "string \<Rightarrow> string \<Rightarrow> int \<Rightarrow> market \<Rightarrow> (py_error + bool \<times> trade_msg) \<times> market" where
  "SellStockCommand_execute uid symbol quantity m =
     (if quantity \<le> 0 then (Inr (False, BadQuantity), m)
      else
        case stock_price m symbol of
          None \<Rightarrow> (Inr (False, NoSuchStock), m)
        | Some price \<Rightarrow>
            (case boom_data m uid of
               None \<Rightarrow> (Inr (False, NotHolding), m)
             | Some u \<Rightarrow>
                 (case stocks u of
                    None \<Rightarrow> (Inr (False, NotHolding), m)
                  | Some held \<Rightarrow>
                      (case held symbol of
                         None \<Rightarrow> (Inr (False, NotHolding), m)
                       | Some owned_quantity \<Rightarrow>
                           if owned_quantity < quantity then (Inr (False, NotEnoughShares), m)
                           else
                             (case total_price_of price quantity of
                                Inl e \<Rightarrow> (Inl e, m)
                              | Inr total_price \<Rightarrow>
                                  (case fee_of total_price of
                                     Inl e \<Rightarrow> (Inl e, m)
                                   | Inr fee \<Rightarrow>
                                       if total_price \<le> fee then (Inr (False, FeeTooHigh), m)
                                       else
                                         let net_gain = total_price - fee;
                                             new_gold = max 0 (dict_get (gold u) 0 + net_gain);
                                             remaining = owned_quantity - quantity;
                                             held' =
                                               (if remaining = 0 then held(symbol := None)
                                                else held(symbol \<mapsto> remaining));
                                             data' =
                                               (boom_data m)
                                                 (uid \<mapsto> u\<lparr>gold := Some new_gold,
                                                            stocks := Some held'\<rparr>);
                                             weights =
                                               update_weight lit_0_01 symbol quantity (stock_weight m)
                                         in (Inr (True, Sold total_price fee),
                                             m\<lparr>boom_data := data', stock_weight := weights\<rparr>)))))))"

section \<open>Sample states\<close>

text \<open>A full collection of twenty Common artifacts with ids 1 to 20, the first two of level
  1 and the others of level 2, all locked or all unlocked, and a ledger with one user.\<close>

definition sample_store :: "bool \<Rightarrow> artifact_store" where
  "sample_store locked =
     map (\<lambda>i. (i, (Artifact i [] [] rarity_common)
                    \<lparr>level := (if i \<le> 2 then 1 else 2), is_locked := locked\<rparr>)) [1..20]"

definition sample_ledger :: user_store where
  "sample_ledger = [''u'' \<mapsto> \<lparr>coins = 150, artifact_upgrade_items = 0, artifact_re_roll_items = 0\<rparr>]"

text \<open>A market with one stock of price 1 and no stored weight, and one user with 2000
  gold and no shares.\<close>

definition sample_market :: market where
  "sample_market =
     \<lparr>stock_price = [''01'' \<mapsto> 1],
      boom_data = [''u'' \<mapsto> \<lparr>gold = Some 2000, stocks = None\<rparr>],
      stock_weight = Map.empty\<rparr>"

text \<open>The raw draws of one lottery call, with the given draw for the first roll. A draw
  \<open>x\<close> below the width of the range gives the result \<open>a + x\<close>.\<close>

definition sample_rng :: "nat \<Rightarrow> rng" where
  "sample_rng x =
     \<lparr>rnd_roll = x, rnd_name = [], rnd_description = [], rnd_rarity_roll = 96,
      rnd_ids = [2, 20], rnd_reinforcement = 1, rnd_reward = 76\<rparr>"

section \<open>Facts about the float model\<close>

subsection \<open>Exponent and rounding\<close>

lemma bitlen_pos: "0 < m \<Longrightarrow> 1 \<le> bitlen m"
  by (auto simp: bitlen_alt_def)

lemma pow2_nonneg: "0 \<le> j \<Longrightarrow> (2::rat) powi j = 2 ^ nat j"
  by (simp add: power_int_def)

lemma pow2_neg: "0 \<le> j \<Longrightarrow> (2::rat) powi (- j) = 1 / 2 ^ nat j"
  using power_int_minus_divide[of "2::rat" j] by (simp only: pow2_nonneg)

lemma ilog2_lower:
  assumes "0 < x"
  shows "2 powi (ilog2 x) \<le> x"
proof (cases "1 \<le> x")
  case True
  then have f: "0 < \<lfloor>x\<rfloor>" by linarith
  from bitlen_bounds[OF f] have b: "2 ^ nat (bitlen \<lfloor>x\<rfloor> - 1) \<le> \<lfloor>x\<rfloor>" by simp
  have nn: "0 \<le> bitlen \<lfloor>x\<rfloor> - 1" using bitlen_pos[OF f] by simp
  have "(2::rat) powi (bitlen \<lfloor>x\<rfloor> - 1) = 2 ^ nat (bitlen \<lfloor>x\<rfloor> - 1)"
    using nn by (simp add: power_int_def)
  also have "\<dots> = of_int (2 ^ nat (bitlen \<lfloor>x\<rfloor> - 1))" by simp
  also have "\<dots> \<le> of_int \<lfloor>x\<rfloor>" using b by (simp only: of_int_le_iff)
  also have "\<dots> \<le> x" by simp
  finally show ?thesis using True by (simp add: ilog2_def)
next
  case False
  define y where "y = 1 / x"
  define j where "j = bitlen (\<lceil>y\<rceil> - 1)"
  have y1: "1 < y" using False assms by (simp add: y_def)
  then have m: "0 < \<lceil>y\<rceil> - 1" by linarith
  from bitlen_bounds[OF m] have "\<lceil>y\<rceil> - 1 < 2 ^ nat j" by (simp add: j_def)
  then have "\<lceil>y\<rceil> \<le> 2 ^ nat j" by simp
  then have "of_int \<lceil>y\<rceil> \<le> (of_int (2 ^ nat j) :: rat)" by (simp only: of_int_le_iff)
  then have yle: "y \<le> 2 ^ nat j" 
    by (metis le_of_int_ceiling of_int_numeral of_int_power order_trans)
  have jn: "0 \<le> j" by (simp add: j_def bitlen_nonneg)
  have "(2::rat) powi (- j) = 1 / 2 ^ nat j"
    using jn by (rule pow2_neg)
  also have "\<dots> \<le> x"
  proof -
    have "1 / x \<le> 2 ^ nat j" using yle by (simp add: y_def)
    then show ?thesis using assms by (simp add: field_simps)
  qed
  finally show ?thesis using False by (simp add: ilog2_def y_def j_def)
qed

lemma ilog2_upper:
  assumes "0 < x"
  shows "x < 2 powi (ilog2 x + 1)"
proof (cases "1 \<le> x")
  case True
  then have f: "0 < \<lfloor>x\<rfloor>" by linarith
  from bitlen_bounds[OF f] have b: "\<lfloor>x\<rfloor> < 2 ^ nat (bitlen \<lfloor>x\<rfloor>)" by simp
  then have "\<lfloor>x\<rfloor> + 1 \<le> 2 ^ nat (bitlen \<lfloor>x\<rfloor>)" by simp
  then have "of_int (\<lfloor>x\<rfloor> + 1) \<le> (of_int (2 ^ nat (bitlen \<lfloor>x\<rfloor>)) :: rat)"
    by (simp only: of_int_le_iff)
  moreover have "x < of_int (\<lfloor>x\<rfloor> + 1)" by linarith
  ultimately have "x < 2 ^ nat (bitlen \<lfloor>x\<rfloor>)" by simp
  moreover have "(2::rat) powi (bitlen \<lfloor>x\<rfloor>) = 2 ^ nat (bitlen \<lfloor>x\<rfloor>)"
    using bitlen_nonneg[of "\<lfloor>x\<rfloor>"] by (simp add: power_int_def)
  ultimately show ?thesis using True by (simp add: ilog2_def)
next
  case False
  define y where "y = 1 / x"
  define j where "j = bitlen (\<lceil>y\<rceil> - 1)"
  have y1: "1 < y" using False assms by (simp add: y_def)
  then have m: "0 < \<lceil>y\<rceil> - 1" by linarith
  have j1: "1 \<le> j" using bitlen_pos[OF m] by (simp add: j_def)
  from bitlen_bounds[OF m] have "2 ^ nat (j - 1) \<le> \<lceil>y\<rceil> - 1" by (simp add: j_def)
  then have "of_int (2 ^ nat (j - 1)) \<le> (of_int (\<lceil>y\<rceil> - 1) :: rat)" by (simp only: of_int_le_iff)
  moreover have "of_int (\<lceil>y\<rceil> - 1) < y" by linarith
  ultimately have lt: "2 ^ nat (j - 1) < y" by simp
  have "x < 1 / 2 ^ nat (j - 1)"
  proof -
    have "2 ^ nat (j - 1) < 1 / x" using lt by (simp add: y_def)
    then show ?thesis using assms by (simp add: field_simps)
  qed
  also have "\<dots> = (2::rat) powi (- j + 1)"
  proof -
    have "- j + 1 = - (j - 1)" by simp
    moreover have "(2::rat) powi (- (j - 1)) = 1 / 2 ^ nat (j - 1)"
      using j1 by (intro pow2_neg) simp
    ultimately show ?thesis by (simp only:)
  qed
  finally show ?thesis using False by (simp add: ilog2_def y_def j_def)
qed

lemma round_half_even_of_int: "round_half_even (of_int k) = k"
  by (simp add: round_half_even_def)

lemma floor_le_round_half_even: "\<lfloor>y\<rfloor> \<le> round_half_even y"
  by (simp add: round_half_even_def Let_def)

lemma round_half_even_ge:
  assumes "of_int k \<le> y"
  shows "k \<le> round_half_even y"
proof -
  have "k \<le> \<lfloor>y\<rfloor>" using assms by (simp add: le_floor_iff)
  then show ?thesis using floor_le_round_half_even[of y] by linarith
qed

lemma round_half_even_le_half: "of_int (round_half_even y) \<le> y + 1 / 2"
  by (auto simp: round_half_even_def Let_def) linarith+

lemma round_half_even_ge_half: "y - 1 / 2 \<le> of_int (round_half_even y)"
  by (auto simp: round_half_even_def Let_def) linarith+

lemma pow2_less_imp: "(2::rat) powi a < 2 powi b \<Longrightarrow> a < b"
  using power_int_increasing[of b a "2::rat"] by (cases "a < b") auto

lemma pow2_pos: "0 < (2::rat) powi e"
  by (simp add: power_int_def)

lemma pow2_int:
  assumes "0 \<le> d"
  shows "of_int m * (2::rat) powi d = of_int (m * 2 ^ nat d)"
  using assms by (simp add: pow2_nonneg)

lemma fl_pos_eq:
  assumes "0 < x"
  shows "fl x = of_int (round_half_even (x / 2 powi (ilog2 x - 52))) * 2 powi (ilog2 x - 52)"
  using assms by (simp add: fl_def Let_def)

lemma fl_exact_pos:
  assumes m: "0 < m" "m < 2 ^ 53"
  shows "fl (of_int m * 2 powi e0) = of_int m * 2 powi e0"
proof -
  define x :: rat where "x = of_int m * 2 powi e0"
  define e where "e = ilog2 x - 52"
  have xpos: "0 < x" using m pow2_pos[of e0] by (simp add: x_def)
  have "of_int m < (2::rat) ^ 53" using m(2) by (metis of_int_less_iff of_int_numeral of_int_power)
  then have "x < 2 ^ 53 * 2 powi e0" using pow2_pos[of e0] by (simp add: x_def)
  also have "\<dots> = 2 powi (53 + e0)" by (simp add: power_int_add)
  finally have "2 powi (ilog2 x) < (2::rat) powi (53 + e0)"
    using ilog2_lower[OF xpos] by linarith
  then have "ilog2 x < 53 + e0" by (rule pow2_less_imp)
  then have d: "0 \<le> e0 - e" by (simp add: e_def)
  have "x / 2 powi e = of_int m * (2 powi e0 / 2 powi e)" by (simp add: x_def)
  also have "2 powi e0 / 2 powi e = (2::rat) powi (e0 - e)" by (simp add: power_int_diff)
  also have "of_int m * (2::rat) powi (e0 - e) = of_int (m * 2 ^ nat (e0 - e))"
    using d by (rule pow2_int)
  finally have "round_half_even (x / 2 powi e) = m * 2 ^ nat (e0 - e)"
    by (simp only: round_half_even_of_int)
  then have "fl x = of_int (m * 2 ^ nat (e0 - e)) * 2 powi e"
    using fl_pos_eq[OF xpos] by (simp add: e_def)
  also have "\<dots> = of_int m * 2 powi (e0 - e) * 2 powi e"
    by (simp only: pow2_int[OF d, of m])
  also have "\<dots> = of_int m * (2 powi (e0 - e) * 2 powi e)" by simp
  also have "2 powi (e0 - e) * 2 powi e = (2::rat) powi e0"
    by (simp flip: power_int_add)
  finally show ?thesis by (simp add: x_def)
qed

lemma fl_floor:
  assumes x: "0 < x" "x < 2 ^ 49" and fr: "x - of_int \<lfloor>x\<rfloor> \<le> 15 / 16"
  shows "\<lfloor>fl x\<rfloor> = \<lfloor>x\<rfloor>"
proof -
  define e where "e = ilog2 x - 52"
  define s :: rat where "s = 2 powi e"
  define k where "k = \<lfloor>x\<rfloor>"
  have spos: "0 < s" by (simp add: s_def pow2_pos)
  have "2 powi (ilog2 x) < (2::rat) powi 49"
    using ilog2_lower[OF x(1)] x(2) by simp
  then have "ilog2 x < 49" by (rule pow2_less_imp)
  then have e4: "e \<le> - 4" by (simp add: e_def)
  have "s \<le> 2 powi (- 4)" unfolding s_def using e4 by (intro power_int_increasing) auto
  then have s16: "s \<le> 1 / 16" by (simp add: power_int_minus_divide)
  have fl: "fl x = of_int (round_half_even (x / s)) * s"
    using fl_pos_eq[OF x(1)] by (simp add: e_def s_def)
  have d: "0 \<le> - e" using e4 by simp
  have "of_int k / s = of_int k * 2 powi (- e)" by (simp add: s_def power_int_minus_divide)
  also have "\<dots> = of_int (k * 2 ^ nat (- e))" using d by (rule pow2_int)
  finally have K: "of_int k / s = of_int (k * 2 ^ nat (- e))" .
  have "of_int k \<le> x" by (simp add: k_def)
  then have "of_int k / s \<le> x / s" using spos by (simp add: divide_right_mono)
  then have "k * 2 ^ nat (- e) \<le> round_half_even (x / s)"
    unfolding K by (rule round_half_even_ge)
  then have "of_int (k * 2 ^ nat (- e)) \<le> (of_int (round_half_even (x / s)) :: rat)"
    by (simp only: of_int_le_iff)
  then have "of_int k / s * s \<le> of_int (round_half_even (x / s)) * s"
    unfolding K using spos by (simp only: mult_le_cancel_right_pos)
  then have lower: "of_int k \<le> fl x" using spos by (simp add: fl)
  have "of_int (round_half_even (x / s)) * s \<le> (x / s + 1 / 2) * s"
    using round_half_even_le_half[of "x / s"] spos by (simp only: mult_le_cancel_right_pos)
  also have "\<dots> = x + s / 2" using spos by (simp add: field_simps)
  also have "\<dots> \<le> x + 1 / 32" using s16 by simp
  also have "\<dots> < of_int k + 1" using fr by (simp add: k_def)
  finally have upper: "fl x < of_int k + 1" by (simp add: fl)
  from lower upper show ?thesis unfolding k_def[symmetric] by (intro floor_unique) auto
qed

subsection \<open>Exact products and floors\<close>

lemma fl_zero: "fl 0 = 0" by (simp add: fl_def)

lemma fl_exact_nonneg:
  assumes "0 \<le> m" "m < 2 ^ 53"
  shows "fl (of_int m * 2 powi e0) = of_int m * 2 powi e0"
proof (cases "m = 0")
  case True
  then show ?thesis by (simp add: fl_zero)
next
  case False
  with assms have "0 < m" by simp
  then show ?thesis using assms(2) by (rule fl_exact_pos)
qed

lemma fmul_fin: "fmul (Fin a) (Fin b) = to_float (a * b)"
  by simp

lemma fadd_fin: "fadd (Fin a) (Fin b) = to_float (a + b)"
  by simp

declare fmul.simps(1) [simp del]

declare fadd.simps(1) [simp del]

lemma float_limit_big: "2 ^ 60 \<le> float_limit"
  by (simp add: float_limit_def)

lemma to_float_fin: "\<bar>x\<bar> < 2 ^ 60 \<Longrightarrow> to_float x = Fin (fl x)"
proof -
  assume "\<bar>x\<bar> < 2 ^ 60"
  then have "x < float_limit" "- float_limit < x" using float_limit_big by linarith+
  then show ?thesis by (simp add: to_float_def)
qed

lemma to_float_zero: "to_float 0 = Fin 0"
  using to_float_fin[of 0] by (simp add: fl_zero)

lemma float_of_int_exact:
  assumes "0 \<le> n" "n < 2 ^ 53"
  shows "float_of_int n = Inr (Fin (of_int n))"
proof -
  have "(of_int n :: rat) < 2 ^ 53"
    using assms(2) by (metis of_int_less_iff of_int_numeral of_int_power)
  then have "\<bar>of_int n :: rat\<bar> < float_limit" using assms(1) float_limit_big by simp
  then show ?thesis using fl_exact_nonneg[OF assms, of 0] by (simp add: float_of_int_def)
qed

lemma float_of_int_overflow:
  "float_limit \<le> \<bar>of_int n\<bar> \<Longrightarrow> float_of_int n = Inl OverflowError"
  by (simp add: float_of_int_def)

lemma float_of_int_fin:
  "\<bar>of_int n\<bar> < float_limit \<Longrightarrow> float_of_int n = Inr (Fin (fl (of_int n)))"
  by (simp add: float_of_int_def)

lemma trunc_zero_of_int: "trunc_zero (of_int k) = k"
  by (simp add: trunc_zero_def)

lemma trunc_zero_nonneg: "0 \<le> x \<Longrightarrow> trunc_zero x = \<lfloor>x\<rfloor>"
  by (simp add: trunc_zero_def)

lemma fl_tenth:
  "fl (1 * lit_0_1) = lit_0_1"
  "fl (5 * lit_0_1) = 1 / 2"
  "fl (20 * lit_0_1) = 2"
  "fl (50 * lit_0_1) = 5"
  "fl (100 * lit_0_1) = 10"
  by code_simp+

lemma base_times_tenth:
  "fmul (Fin 1) (Fin lit_0_1) = Fin lit_0_1"
  "fmul (Fin 5) (Fin lit_0_1) = Fin (1 / 2)"
  "fmul (Fin 20) (Fin lit_0_1) = Fin 2"
  "fmul (Fin 50) (Fin lit_0_1) = Fin 5"
  "fmul (Fin 100) (Fin lit_0_1) = Fin 10"
  "fmul (Fin 0) (Fin lit_0_1) = Fin 0"
proof -
  have b: "\<bar>1 * lit_0_1\<bar> < 2 ^ 60" "\<bar>5 * lit_0_1\<bar> < 2 ^ 60" "\<bar>20 * lit_0_1\<bar> < 2 ^ 60"
    "\<bar>50 * lit_0_1\<bar> < 2 ^ 60" "\<bar>100 * lit_0_1\<bar> < 2 ^ 60"
    by (simp_all add: lit_0_1_def)
  show "fmul (Fin 1) (Fin lit_0_1) = Fin lit_0_1"
    unfolding fmul_fin to_float_fin[OF b(1)] fl_tenth ..
  show "fmul (Fin 5) (Fin lit_0_1) = Fin (1 / 2)"
    unfolding fmul_fin to_float_fin[OF b(2)] fl_tenth ..
  show "fmul (Fin 20) (Fin lit_0_1) = Fin 2"
    unfolding fmul_fin to_float_fin[OF b(3)] fl_tenth ..
  show "fmul (Fin 50) (Fin lit_0_1) = Fin 5"
    unfolding fmul_fin to_float_fin[OF b(4)] fl_tenth ..
  show "fmul (Fin 100) (Fin lit_0_1) = Fin 10"
    unfolding fmul_fin to_float_fin[OF b(5)] fl_tenth ..
  show "fmul (Fin 0) (Fin lit_0_1) = Fin 0"
    by (simp add: fmul_fin to_float_zero)
qed

text \<open>The largest \<open>level - 1\<close> whose products with 5 and with 10 are floats: from
  \<open>1801439850948199\<close> on, \<open>5 * n\<close> exceeds \<open>2 ^ 53\<close>.\<close>

lemma extra_half:
  assumes "0 \<le> n" "n \<le> 1801439850948198"
  shows "py_int (fmul (Fin (1 / 2)) (Fin (of_int n))) = Inr ((5 * n) div 10)"
proof -
  have n53: "n < 2 ^ 53" using assms(2) by simp
  have "(of_int n :: rat) \<le> 1801439850948198" using assms(2) by simp
  then have b: "\<bar>1 / 2 * of_int n :: rat\<bar> < 2 ^ 60" using assms(1) by simp
  have "fl (1 / 2 * of_int n) = fl (of_int n * 2 powi (- 1))" by (simp add: mult.commute)
  also have "\<dots> = of_int n * 2 powi (- 1)" using assms(1) n53 by (rule fl_exact_nonneg)
  also have "\<dots> = of_int n / of_int 2" by simp
  finally have e: "fmul (Fin (1 / 2)) (Fin (of_int n)) = Fin (of_int n / of_int 2)"
    unfolding fmul_fin to_float_fin[OF b] by simp
  have "(0::rat) \<le> of_int n / of_int 2" using assms(1) by simp
  then have "trunc_zero (of_int n / of_int 2) = \<lfloor>(of_int n / of_int 2 :: rat)\<rfloor>"
    by (rule trunc_zero_nonneg)
  also have "\<dots> = n div 2" by (rule floor_divide_of_int_eq)
  finally show ?thesis unfolding e by simp
qed

lemma extra_int:
  assumes "0 \<le> n" "n \<le> 1801439850948198" "c \<in> {1, 5}"
  shows "py_int (fmul (Fin (of_int (2 * c))) (Fin (of_int n))) = Inr (2 * c * n)"
proof -
  have c: "0 \<le> c * n" "c * n < 2 ^ 53" using assms by auto
  define y :: rat where "y = of_int (c * n)"
  have "y < 2 ^ 53"
    unfolding y_def using c(2) by (metis of_int_less_iff of_int_numeral of_int_power)
  moreover have "0 \<le> y" unfolding y_def using c(1) by (simp only: of_int_0_le_iff)
  moreover have "of_int (2 * c) * of_int n = 2 * y" by (simp add: y_def)
  ultimately have b: "\<bar>of_int (2 * c) * of_int n :: rat\<bar> < 2 ^ 60" by simp
  have "fl (of_int (2 * c) * of_int n) = fl (of_int (c * n) * 2 powi 1)"
    by (simp add: mult_ac)
  also have "\<dots> = of_int (c * n) * 2 powi 1" using c by (rule fl_exact_nonneg)
  also have "\<dots> = of_int (2 * c * n)" by simp
  finally have e: "fmul (Fin (of_int (2 * c))) (Fin (of_int n)) = Fin (of_int (2 * c * n))"
    unfolding fmul_fin to_float_fin[OF b] by (simp only:)
  show ?thesis unfolding e py_int.simps trunc_zero_of_int ..
qed

lemma extra_five:
  assumes "0 \<le> n" "n \<le> 1801439850948198"
  shows "py_int (fmul (Fin 5) (Fin (of_int n))) = Inr (5 * n)"
proof -
  have c: "0 \<le> 5 * n" "5 * n < 2 ^ 53" using assms by auto
  have "(of_int (5 * n) :: rat) < 2 ^ 53"
    using c(2) by (metis of_int_less_iff of_int_numeral of_int_power)
  then have b: "\<bar>5 * of_int n :: rat\<bar> < 2 ^ 60" using c(1) by simp
  have "fl (5 * of_int n) = fl (of_int (5 * n) * 2 powi 0)" by simp
  also have "\<dots> = of_int (5 * n) * 2 powi 0" using c by (rule fl_exact_nonneg)
  also have "\<dots> = of_int (5 * n)" by simp
  finally have e: "fmul (Fin 5) (Fin (of_int n)) = Fin (of_int (5 * n))"
    unfolding fmul_fin to_float_fin[OF b] by (simp only:)
  show ?thesis unfolding e py_int.simps trunc_zero_of_int ..
qed

lemma extra_tenth:
  assumes "0 \<le> n" "n \<le> 1801439850948198"
  shows "py_int (fmul (Fin lit_0_1) (Fin (of_int n))) = Inr (n div 10)"
proof (cases "n = 0")
  case True
  then show ?thesis by (simp add: fmul_fin to_float_zero trunc_zero_def)
next
  case False
  with assms have npos: "0 < n" by simp
  define k where "k = n div 10"
  define r where "r = n mod 10"
  define x :: rat where "x = lit_0_1 * of_int n"
  have n: "n = 10 * k + r" by (simp add: k_def r_def)
  have r: "0 \<le> r" "r \<le> 9" by (simp_all add: r_def)
  have k: "0 \<le> k" "k \<le> 180143985094819" using assms by (simp_all add: k_def)
  have kr: "(0::rat) \<le> of_int k" "(of_int k :: rat) \<le> 180143985094819"
    "(0::rat) \<le> of_int r" "(of_int r :: rat) \<le> 9"
    using k r by simp_all
  have xe: "x = 3602879701896397 / 36028797018963968 * (10 * of_int k + of_int r)"
    by (simp add: x_def lit_0_1_def n)
  have lo: "of_int k \<le> x" unfolding xe using kr by simp
  have hi: "x \<le> of_int k + 15 / 16" unfolding xe using kr by simp
  have fx: "\<lfloor>x\<rfloor> = k" using lo hi by (intro floor_unique) auto
  have xpos: "0 < x" using npos by (simp add: x_def lit_0_1_def)
  have x49: "x < 2 ^ 49" using hi kr by simp
  have b: "\<bar>x\<bar> < 2 ^ 60" using xpos x49 by simp
  have f: "\<lfloor>fl x\<rfloor> = \<lfloor>x\<rfloor>" using xpos x49 hi by (intro fl_floor) (simp_all add: fx)
  have nn: "0 \<le> fl x"
  proof -
    have "0 \<le> \<lfloor>fl x\<rfloor>" using f fx k by simp
    then show ?thesis by simp
  qed
  have "fmul (Fin lit_0_1) (Fin (of_int n)) = Fin (fl x)"
    unfolding fmul.simps x_def[symmetric] to_float_fin[OF b] ..
  then show ?thesis using f nn by (simp add: trunc_zero_def fx k_def)
qed

section \<open>Disassembly yield\<close>

lemma spec_yield_div:
  assumes "1 \<le> lvl" "0 \<le> base"
  shows "spec_yield base lvl = base + (base * (lvl - 1)) div 10"
proof -
  have e: "of_int base * (1 / 10) * of_int (lvl - 1) = (of_int (base * (lvl - 1)) / of_int 10 :: rat)"
    by simp
  have "(0::rat) \<le> of_int (base * (lvl - 1)) / of_int 10" using assms by simp
  then have "trunc_zero (of_int (base * (lvl - 1)) / of_int 10)
      = \<lfloor>(of_int (base * (lvl - 1)) / of_int 10 :: rat)\<rfloor>"
    by (rule trunc_zero_nonneg)
  also have "\<dots> = (base * (lvl - 1)) div 10" by (rule floor_divide_of_int_eq)
  finally show ?thesis unfolding spec_yield_def e by simp
qed

lemma base_items_lookup:
  "map_of rarity_to_items rarity_common = Some 1"
  "map_of rarity_to_items rarity_uncommon = Some 5"
  "map_of rarity_to_items rarity_rare = Some 20"
  "map_of rarity_to_items rarity_epic = Some 50"
  "map_of rarity_to_items rarity_legendary = Some 100"
  by (simp_all add: rarity_to_items_def rarity_common_def rarity_uncommon_def rarity_rare_def
      rarity_epic_def rarity_legendary_def)

lemma base_items_cases:
  "dict_get (map_of rarity_to_items r) 0 \<in> {0, 1, 5, 20, 50, 100}"
  by (simp add: rarity_to_items_def dict_get_def)

lemma float_of_base_items:
  assumes "b \<in> {0, 1, 5, 20, 50, 100}"
  shows "float_of_int b = Inr (Fin (of_int b))"
proof -
  have "0 \<le> b" "b < 2 ^ 53" using assms by auto
  then show ?thesis by (rule float_of_int_exact)
qed

lemma yield_unfold:
  assumes "map_of rarity_to_items (rarity a) = Some b" and "b \<in> {0, 1, 5, 20, 50, 100}"
    and "level a - 1 = n" and "0 \<le> n" and "n < 2 ^ 53"
  shows "get_reinforcement_items_from_disassembly a =
           (case py_int (fmul (fmul (Fin (of_int b)) (Fin lit_0_1)) (Fin (of_int n))) of
              Inl e \<Rightarrow> Inl e
            | Inr extra_items \<Rightarrow> Inr (b + extra_items))"
proof -
  have n: "float_of_int (level a - 1) = Inr (Fin (of_int n))"
    unfolding assms(3) using assms(4,5) by (rule float_of_int_exact)
  show ?thesis
    using n float_of_base_items[OF assms(2)] assms(1)
    by (simp add: get_reinforcement_items_from_disassembly_def Let_def dict_get_def
        split: sum.splits)
qed

lemma unlisted_rarity_lookup:
  assumes "r \<notin> {rarity_common, rarity_uncommon, rarity_rare, rarity_epic, rarity_legendary}"
  shows "map_of rarity_to_items r = None"
  using assms by (simp add: rarity_to_items_def)

lemma rarity_default_unlisted:
  "rarity_default \<notin> {rarity_common, rarity_uncommon, rarity_rare, rarity_epic, rarity_legendary}"
  by (simp add: rarity_default_def rarity_common_def rarity_uncommon_def rarity_rare_def
      rarity_epic_def rarity_legendary_def)

lemma loaded_rarity_default:
  assumes "info_rarity info = None"
  shows "rarity (artifact_of_info aid info) = rarity_default"
  using assms by (simp add: artifact_of_info_def dict_get_def)

lemma fmul_zero_right: "fmul (Fin x) (Fin 0) = Fin 0"
  by (simp add: fmul_fin to_float_zero)

lemma fmul_zero_left: "fmul (Fin 0) (Fin x) = Fin 0"
  by (simp add: fmul_fin to_float_zero)

text \<open>At level 1 the factor \<open>level - 1\<close> is 0, the product is \<open>0.0\<close> and the yield is the base
  of the rarity, 0 for a rarity that the table does not list.\<close>

lemma yield_level_one:
  assumes "level a = 1"
  shows "get_reinforcement_items_from_disassembly a
           = Inr (dict_get (map_of rarity_to_items (rarity a)) 0)"
proof -
  define b where "b = dict_get (map_of rarity_to_items (rarity a)) 0"
  have b: "b \<in> {0, 1, 5, 20, 50, 100}" unfolding b_def by (rule base_items_cases)
  have z: "float_of_int (level a - 1) = Inr (Fin 0)"
    using float_of_int_exact[of 0] assms by simp
  have "0 \<le> b" "b \<le> 100" using b by auto
  then have "(0::rat) \<le> of_int b" "(of_int b :: rat) \<le> 100" by simp_all
  then have "0 \<le> of_int b * lit_0_1" "of_int b * lit_0_1 < 2 ^ 60"
    by (simp_all add: lit_0_1_def)
  then have "\<bar>of_int b * lit_0_1\<bar> < 2 ^ 60" by simp
  then have t: "fmul (Fin (of_int b)) (Fin lit_0_1) = Fin (fl (of_int b * lit_0_1))"
    unfolding fmul_fin by (rule to_float_fin)
  show ?thesis
    using z float_of_base_items[OF b]
    by (simp add: get_reinforcement_items_from_disassembly_def Let_def b_def[symmetric] t
        fmul_zero_right trunc_zero_def)
qed

text \<open>The yield formula holds for the five rarities up to the level 1801439850948199.\<close>

lemma yield_formula_below_limit:
  assumes "1 \<le> level a" "level a \<le> 1801439850948199"
    and "(rarity a, base) \<in> {(rarity_common, 1), (rarity_uncommon, 5), (rarity_rare, 20),
           (rarity_epic, 50), (rarity_legendary, 100)}"
  shows "get_reinforcement_items_from_disassembly a = Inr (spec_yield base (level a))"
proof -
  define n where "n = level a - 1"
  have n: "0 \<le> n" "n \<le> 1801439850948198" using assms(1,2) by (simp_all add: n_def)
  have n53: "n < 2 ^ 53" using n(2) by simp
  have l: "level a - 1 = n" by (simp add: n_def)
  have sy: "0 \<le> base \<Longrightarrow> spec_yield base (level a) = base + (base * n) div 10"
    using spec_yield_div[OF assms(1)] by (simp add: n_def)
  consider "rarity a = rarity_common" "base = 1" | "rarity a = rarity_uncommon" "base = 5"
    | "rarity a = rarity_rare" "base = 20" | "rarity a = rarity_epic" "base = 50"
    | "rarity a = rarity_legendary" "base = 100"
    using assms(3) by blast
  then show ?thesis
  proof cases
    case 1
    have "get_reinforcement_items_from_disassembly a = Inr (1 + n div 10)"
      using yield_unfold[OF _ _ l n(1) n53, of 1] 1
      by (simp add: base_items_lookup base_times_tenth extra_tenth[OF n])
    then show ?thesis using sy 1 by simp
  next
    case 2
    have "get_reinforcement_items_from_disassembly a = Inr (5 + (5 * n) div 10)"
      using yield_unfold[OF _ _ l n(1) n53, of 5] 2
      by (simp add: base_items_lookup base_times_tenth extra_half[OF n])
    then show ?thesis using sy 2 by simp
  next
    case 3
    have "get_reinforcement_items_from_disassembly a = Inr (20 + 2 * 1 * n)"
      using yield_unfold[OF _ _ l n(1) n53, of 20] 3 extra_int[OF n, of 1]
      by (simp add: base_items_lookup base_times_tenth)
    then show ?thesis using sy 3 by simp
  next
    case 4
    have "get_reinforcement_items_from_disassembly a = Inr (50 + 5 * n)"
      using yield_unfold[OF _ _ l n(1) n53, of 50] 4
      by (simp add: base_items_lookup base_times_tenth extra_five[OF n])
    then show ?thesis using sy 4 by simp
  next
    case 5
    have "get_reinforcement_items_from_disassembly a = Inr (100 + 2 * 5 * n)"
      using yield_unfold[OF _ _ l n(1) n53, of 100] 5 extra_int[OF n, of 5]
      by (simp add: base_items_lookup base_times_tenth)
    then show ?thesis using sy 5 by simp
  qed
qed

text \<open>The three instances the specification names: a Rare artifact of level 6 yields 30, a
  Common one of level 1 yields 1, a Legendary one of level 1 yields 100.\<close>

lemma yield_named_instances:
  "get_reinforcement_items_from_disassembly ((Artifact 7 [] [] rarity_rare)\<lparr>level := 6\<rparr>) = Inr 30"
  "get_reinforcement_items_from_disassembly (Artifact 8 [] [] rarity_common) = Inr 1"
  "get_reinforcement_items_from_disassembly (Artifact 9 [] [] rarity_legendary) = Inr 100"
proof -
  have s: "spec_yield 20 6 = 30" "spec_yield 1 1 = 1" "spec_yield 100 1 = 100"
    by (simp_all add: spec_yield_def trunc_zero_def)
  show "get_reinforcement_items_from_disassembly ((Artifact 7 [] [] rarity_rare)\<lparr>level := 6\<rparr>)
          = Inr 30"
    using yield_formula_below_limit[of "(Artifact 7 [] [] rarity_rare)\<lparr>level := 6\<rparr>" 20]
    by (simp add: Artifact_def s)
  show "get_reinforcement_items_from_disassembly (Artifact 8 [] [] rarity_common) = Inr 1"
    using yield_formula_below_limit[of "Artifact 8 [] [] rarity_common" 1]
    by (simp add: Artifact_def s)
  show "get_reinforcement_items_from_disassembly (Artifact 9 [] [] rarity_legendary) = Inr 100"
    using yield_formula_below_limit[of "Artifact 9 [] [] rarity_legendary" 100]
    by (simp add: Artifact_def s)
qed

lemma fl_first_failure:
  "fl 18014398509481990 = 18014398509481992"
  "fl 9007199254740995 = 9007199254740996"
  by code_simp+

lemma extra_first_failure:
  "py_int (fmul (Fin 10) (Fin 1801439850948199)) = Inr 18014398509481992"
  "py_int (fmul (Fin 5) (Fin 1801439850948199)) = Inr 9007199254740996"
proof -
  have b: "\<bar>18014398509481990 :: rat\<bar> < 2 ^ 60" "\<bar>9007199254740995 :: rat\<bar> < 2 ^ 60"
    by simp_all
  have "fmul (Fin 10) (Fin 1801439850948199) = to_float 18014398509481990"
    by (simp add: fmul_fin)
  then show "py_int (fmul (Fin 10) (Fin 1801439850948199)) = Inr 18014398509481992"
    unfolding to_float_fin[OF b(1)] fl_first_failure by (simp add: trunc_zero_def)
  have "fmul (Fin 5) (Fin 1801439850948199) = to_float 9007199254740995"
    by (simp add: fmul_fin)
  then show "py_int (fmul (Fin 5) (Fin 1801439850948199)) = Inr 9007199254740996"
    unfolding to_float_fin[OF b(2)] fl_first_failure by (simp add: trunc_zero_def)
qed

text \<open>
  Claim C8 at a concrete input. The comment in \<open>get_reinforcement_items_from_disassembly\<close>
  says that every level adds 10 percent of the base, rounded down. The program computes the
  product in binary64 floats: for a Legendary artifact of level 1801439850948200 the product
  \<open>10.0 * 1801439850948199\<close> lies above \<open>2 ^ 54\<close>, where the floats are the multiples of 4,
  and is rounded to 18014398509481992, so the yield is 18014398509482092 where the formula
  gives 18014398509482090. For an Epic artifact of that level the product
  \<open>5.0 * 1801439850948199\<close> lies above \<open>2 ^ 53\<close> and is rounded to an even number; the yield is
  9007199254741046 where the formula gives 9007199254741045. At every lower level the yield
  of the program is that of the formula (lemma \<open>yield_formula_below_limit\<close>).
\<close>

theorem disassembly_yield_breaks_formula:
  "get_reinforcement_items_from_disassembly
     ((Artifact 1 [] [] rarity_legendary)\<lparr>level := 1801439850948200\<rparr>) = Inr 18014398509482092
   \<and> spec_yield 100 1801439850948200 = 18014398509482090
   \<and> get_reinforcement_items_from_disassembly
     ((Artifact 2 [] [] rarity_epic)\<lparr>level := 1801439850948200\<rparr>) = Inr 9007199254741046
   \<and> spec_yield 50 1801439850948200 = 9007199254741045"
proof (intro conjI)
  have n: "(0::int) \<le> 1801439850948199" "(1801439850948199::int) < 2 ^ 53" by simp_all
  show "get_reinforcement_items_from_disassembly
     ((Artifact 1 [] [] rarity_legendary)\<lparr>level := 1801439850948200\<rparr>) = Inr 18014398509482092"
    using yield_unfold[OF _ _ _ n, of "(Artifact 1 [] [] rarity_legendary)\<lparr>level := 1801439850948200\<rparr>" 100]
    by (simp add: Artifact_def base_items_lookup base_times_tenth extra_first_failure)
  show "get_reinforcement_items_from_disassembly
     ((Artifact 2 [] [] rarity_epic)\<lparr>level := 1801439850948200\<rparr>) = Inr 9007199254741046"
    using yield_unfold[OF _ _ _ n, of "(Artifact 2 [] [] rarity_epic)\<lparr>level := 1801439850948200\<rparr>" 50]
    by (simp add: Artifact_def base_items_lookup base_times_tenth extra_first_failure)
  show "spec_yield 100 1801439850948200 = 18014398509482090"
    by (simp add: spec_yield_def trunc_zero_def)
  show "spec_yield 50 1801439850948200 = 9007199254741045"
    by (simp add: spec_yield_def trunc_zero_def)
qed

subsection \<open>Rarities outside the yield table\<close>

text \<open>The conversion of \<open>level - 1\<close> to a float raises from \<open>2 ^ 1024 - 2 ^ 970\<close> on, whatever
  the rarity. Below, an artifact with a rarity outside the table yields 0.\<close>

lemma yield_overflow:
  assumes "float_limit \<le> \<bar>of_int (level a - 1)\<bar>"
  shows "get_reinforcement_items_from_disassembly a = Inl OverflowError"
proof -
  define b where "b = dict_get (map_of rarity_to_items (rarity a)) 0"
  have b: "b \<in> {0, 1, 5, 20, 50, 100}" unfolding b_def by (rule base_items_cases)
  show ?thesis
    using float_of_base_items[OF b] float_of_int_overflow[OF assms]
    by (simp add: get_reinforcement_items_from_disassembly_def Let_def b_def[symmetric]
        split: sum.splits)
qed

lemma unlisted_rarity_yield:
  assumes "rarity a \<notin> {rarity_common, rarity_uncommon, rarity_rare, rarity_epic, rarity_legendary}"
    and "\<bar>of_int (level a - 1)\<bar> < float_limit"
  shows "get_reinforcement_items_from_disassembly a = Inr 0"
proof -
  have z: "float_of_int 0 = Inr (Fin 0)" using float_of_int_exact[of 0] by simp
  show ?thesis
    using unlisted_rarity_lookup[OF assms(1)] float_of_int_fin[OF assms(2)]
    by (simp add: get_reinforcement_items_from_disassembly_def Let_def dict_get_def z
        fmul_zero_left trunc_zero_def)
qed

lemma credit_nothing: "add_artifact_upgrade_items userId 0 us = us"
  by (auto simp: add_artifact_upgrade_items_def split: option.splits)

lemma disassemble_unlisted:
  assumes "rarity a \<notin> {rarity_common, rarity_uncommon, rarity_rare, rarity_epic, rarity_legendary}"
    and "\<bar>of_int (level a - 1)\<bar> < float_limit"
    and "get_artifact_by_id aid (artifact_data w) = Some a" and "\<not> is_locked a"
  shows "disassemble_artifact userId aid w =
           (Inr (True, Disassembled 0),
            \<lparr>artifact_data = AList.delete aid (artifact_data w), user_data = user_data w\<rparr>)"
proof -
  have "aid \<in> fst ` set (artifact_data w)"
    using assms(3) by (auto simp: get_artifact_by_id_def dest: map_of_SomeD intro: rev_image_eqI)
  then show ?thesis
    using assms(3,4) unlisted_rarity_yield[OF assms(1,2)]
    by (simp add: disassemble_artifact_def delete_artifact_def credit_nothing)
qed

lemma disassemble_overflow:
  assumes "float_limit \<le> \<bar>of_int (level a - 1)\<bar>"
    and "get_artifact_by_id aid (artifact_data w) = Some a" and "\<not> is_locked a"
  shows "disassemble_artifact userId aid w = (Inl OverflowError, w)"
  using assms(2,3) yield_overflow[OF assms(1)] by (simp add: disassemble_artifact_def)

lemma load_fold_lookup:
  "map_of (foldl (\<lambda>d (aid, info). AList.update aid (artifact_of_info aid info) d) d0 data) k
     = (case map_of (rev data) k of
          None \<Rightarrow> map_of d0 k
        | Some info \<Rightarrow> Some (artifact_of_info k info))"
proof (induction data arbitrary: d0)
  case Nil
  then show ?case by simp
next
  case (Cons p data)
  obtain aid info where p: "p = (aid, info)" by (cases p)
  show ?case
    by (simp add: p Cons.IH update_conv' map_add_def split: option.splits)
qed

lemma map_of_rev_distinct:
  "distinct (map fst xs) \<Longrightarrow> map_of (rev xs) k = map_of xs k"
proof (induction xs)
  case Nil
  then show ?case by simp
next
  case (Cons p xs)
  then have ih: "map_of (rev xs) k = map_of xs k" and nk: "fst p \<notin> fst ` set xs" by auto
  show ?case
  proof (cases "fst p = k")
    case True
    with nk have "map_of xs k = None" by (simp add: map_of_eq_None_iff)
    then show ?thesis using True ih by (cases p) (simp add: map_add_def)
  next
    case False
    then show ?thesis using ih by (cases p) (simp add: map_add_def split: option.splits)
  qed
qed

lemma load_artifact_data_lookup:
  assumes "distinct (map fst data)" "map_of data k = Some info"
  shows "map_of (load_artifact_data data) k = Some (artifact_of_info k info)"
proof -
  have "map_of (rev data) k = Some info"
    using assms by (simp add: map_of_rev_distinct)
  then show ?thesis by (simp add: load_artifact_data_def load_fold_lookup)
qed

text \<open>
  Claim C10 at a concrete input: a persisted entry without rarity field and with the level
  \<open>2 ^ 1024\<close>. The loaded artifact has the rarity \<open>rarity_default\<close> (the name of Common
  without its emoji), which is not in the yield table, so its base is 0. The program still
  converts \<open>level - 1\<close> to a float to multiply it by \<open>0.0\<close>, and the conversion raises
  \<open>OverflowError\<close>: no yield is computed, and disassembling the stored artifact raises and
  leaves the collection and the ledger as they are, where the claim says that 0 items are
  credited at every level. Below \<open>2 ^ 1024 - 2 ^ 970\<close> the yield is 0 (lemma
  \<open>unlisted_rarity_yield\<close>).
\<close>

theorem unrecognised_rarity_overflow:
  "map_of (load_artifact_data
      [(4, \<lparr>info_name = [], info_description = None, info_level = Some (2 ^ 1024),
             info_base_yield = None, info_yield_multiplier = None, info_rarity = None,
             info_sub_stats = None, info_is_locked = None, info_locked = None\<rparr>)]) 4
     = Some ((Artifact 4 [] [] rarity_default)\<lparr>level := 2 ^ 1024, base_yield := 0\<rparr>)
   \<and> rarity_default \<notin> {rarity_common, rarity_uncommon, rarity_rare, rarity_epic,
        rarity_legendary}
   \<and> get_reinforcement_items_from_disassembly
        ((Artifact 4 [] [] rarity_default)\<lparr>level := 2 ^ 1024, base_yield := 0\<rparr>)
       = Inl OverflowError
   \<and> disassemble_artifact ''u'' 4
        \<lparr>artifact_data = load_artifact_data
           [(4, \<lparr>info_name = [], info_description = None, info_level = Some (2 ^ 1024),
                  info_base_yield = None, info_yield_multiplier = None, info_rarity = None,
                  info_sub_stats = None, info_is_locked = None, info_locked = None\<rparr>)],
         user_data = sample_ledger\<rparr>
       = (Inl OverflowError,
          \<lparr>artifact_data = [(4, (Artifact 4 [] [] rarity_default)\<lparr>level := 2 ^ 1024,
                                   base_yield := 0\<rparr>)],
           user_data = sample_ledger\<rparr>)"
proof -
  define a where "a = (Artifact 4 [] [] rarity_default)\<lparr>level := 2 ^ 1024, base_yield := 0\<rparr>"
  define info where "info = \<lparr>info_name = [], info_description = None,
       info_level = Some ((2::int) ^ 1024), info_base_yield = None,
       info_yield_multiplier = None, info_rarity = None, info_sub_stats = None,
       info_is_locked = None, info_locked = None\<rparr>"
  have ai: "artifact_of_info 4 info = a"
    by (simp add: artifact_of_info_def info_def a_def Artifact_def dict_get_def)
  have ld: "load_artifact_data [(4, info)] = [(4, a)]"
    by (simp add: load_artifact_data_def ai)
  have big: "float_limit \<le> \<bar>of_int (level a - 1)\<bar>"
    by (simp add: a_def float_limit_def)
  have 1: "map_of (load_artifact_data [(4, info)]) 4 = Some a" by (simp add: ld)
  have 2: "get_reinforcement_items_from_disassembly a = Inl OverflowError"
    using big by (rule yield_overflow)
  have 3: "disassemble_artifact ''u'' 4
        \<lparr>artifact_data = load_artifact_data [(4, info)], user_data = sample_ledger\<rparr>
       = (Inl OverflowError, \<lparr>artifact_data = [(4, a)], user_data = sample_ledger\<rparr>)"
    unfolding ld
    by (rule disassemble_overflow[OF big]) (simp_all add: get_artifact_by_id_def a_def Artifact_def)
  show ?thesis using 1 2 3 rarity_default_unlisted unfolding a_def info_def by blast
qed

section \<open>Adding an artifact\<close>

subsection \<open>The eviction scan\<close>

lemma scan_inv_step:
  assumes "scan_inv ps st"
  shows "scan_inv (ps @ [e]) (scan_step st e)"
proof (cases e)
  case (Pair art_id art)
  show ?thesis
  proof (cases "fst st")
    case None
    with assms have a: "snd st = None" "\<forall>(k, b) \<in> set ps. is_locked b"
      by (simp_all add: scan_inv_def)
    show ?thesis
    proof (cases "is_locked art")
      case True
      then show ?thesis using a None Pair by (auto simp: scan_inv_def scan_step_def)
    next
      case False
      then show ?thesis using a None Pair
        by (auto simp: scan_inv_def scan_step_def level_below_def)
    qed
  next
    case (Some i)
    with assms obtain old where o: "(i, old) \<in> set ps" "\<not> is_locked old"
      "snd st = Some (level old)"
      "\<forall>(k, b) \<in> set ps. \<not> is_locked b \<longrightarrow> level old \<le> level b"
      by (auto simp: scan_inv_def)
    show ?thesis
    proof (cases "\<not> is_locked art \<and> level art < level old")
      case True
      then have "scan_step st e = (Some art_id, Some (level art))"
        using o Pair by (simp add: scan_step_def level_below_def)
      moreover have "\<forall>(k, b) \<in> set (ps @ [e]). \<not> is_locked b \<longrightarrow> level art \<le> level b"
        using o(4) True Pair by fastforce
      ultimately show ?thesis using True Pair by (auto simp: scan_inv_def)
    next
      case False
      then have "scan_step st e = st"
        using o Pair by (auto simp: scan_step_def level_below_def)
      moreover have "\<forall>(k, b) \<in> set (ps @ [e]). \<not> is_locked b \<longrightarrow> level old \<le> level b"
        using o(4) False Pair by fastforce
      ultimately show ?thesis using o Some by (auto simp: scan_inv_def)
    qed
  qed
qed

lemma scan_inv_foldl:
  "scan_inv ps st \<Longrightarrow> scan_inv (ps @ d) (foldl scan_step st d)"
proof (induction d arbitrary: ps st)
  case Nil
  then show ?case by simp
next
  case (Cons e d)
  from scan_inv_step[OF Cons.prems] have "scan_inv (ps @ [e]) (scan_step st e)" .
  from Cons.IH[OF this] show ?case by simp
qed

lemma scan_inv_result: "scan_inv d (foldl scan_step (None, None) d)"
  using scan_inv_foldl[of "[]" "(None, None)" d] by (simp add: scan_inv_def)

lemma lowest_none_iff:
  "lowest_level_artifact_id d = None \<longleftrightarrow> (\<forall>(k, b) \<in> set d. is_locked b)"
  using scan_inv_result[of d]
  by (auto simp: scan_inv_def lowest_level_artifact_id_def split: option.splits)

lemma lowest_some:
  assumes "lowest_level_artifact_id d = Some lid"
  shows "\<exists>art. (lid, art) \<in> set d \<and> \<not> is_locked art
           \<and> (\<forall>(k, b) \<in> set d. \<not> is_locked b \<longrightarrow> level art \<le> level b)"
  using scan_inv_result[of d] assms
  by (auto simp: scan_inv_def lowest_level_artifact_id_def split: option.splits)

lemma lowest_is_key:
  "lowest_level_artifact_id d = Some lid \<Longrightarrow> lid \<in> fst ` set d"
  using lowest_some[of d lid] by force

lemma length_delete_key:
  "k \<in> fst ` set d \<Longrightarrow> length (AList.delete k d) < length d"
proof (induction d)
  case Nil
  then show ?case by simp
next
  case (Cons p d)
  show ?case
  proof (cases "fst p = k")
    case True
    then show ?thesis using length_delete_le[of k d] by (simp add: le_imp_less_Suc)
  next
    case False
    with Cons.prems have "k \<in> fst ` set d" by auto
    from Cons.IH[OF this] show ?thesis using False by simp
  qed
qed

lemma length_update_le: "length (AList.update k v d) \<le> Suc (length d)"
  by (induction d) auto

lemma length_add_new_artifact: "length (add_new_artifact a d) \<le> Suc (length d)"
  by (simp add: add_new_artifact_def length_update_le)

text \<open>
  Claim C1. A collection that holds at most 20 artifacts before \<open>add_new_artifact_to_user\<close>
  holds at most 20 after it, whether it was below capacity, full with an unlocked artifact,
  or full with every artifact locked.
\<close>

theorem add_artifact_keeps_capacity:
  assumes "length (artifact_data w) \<le> 20"
  shows "length (artifact_data (snd (add_new_artifact_to_user userId a w))) \<le> 20"
proof (cases "is_artifact_storage_full (artifact_data w)")
  case False
  then have "length (artifact_data w) < 20" by (simp add: is_artifact_storage_full_def)
  then show ?thesis
    using False length_add_new_artifact[of a "artifact_data w"]
    by (simp add: add_new_artifact_to_user_def)
next
  case True
  show ?thesis
  proof (cases "lowest_level_artifact_id (artifact_data w)")
    case None
    then show ?thesis using True assms
      by (simp add: add_new_artifact_to_user_def split: sum.splits)
  next
    case (Some lid)
    then have k: "lid \<in> fst ` set (artifact_data w)" by (rule lowest_is_key)
    then have "length (AList.delete lid (artifact_data w)) < length (artifact_data w)"
      by (rule length_delete_key)
    then have "length (add_new_artifact a (AList.delete lid (artifact_data w))) \<le> 20"
      using assms length_add_new_artifact[of a "AList.delete lid (artifact_data w)"] by linarith
    then show ?thesis using True Some k
      by (simp add: add_new_artifact_to_user_def delete_artifact_def)
  qed
qed

subsection \<open>Locked artifacts\<close>

lemma update_fresh: "k \<notin> fst ` set d \<Longrightarrow> AList.update k v d = d @ [(k, v)]"
  by (induction d) auto

lemma set_delete: "set (AList.delete k d) = {p \<in> set d. fst p \<noteq> k}"
  by (auto simp: AList.delete_eq)

lemma delete_notin_keys: "k \<notin> fst ` set d \<Longrightarrow> k \<notin> fst ` set (AList.delete l d)"
  using dom_delete_subset[of l d] by blast

lemma all_locked_add:
  assumes "20 \<le> length (artifact_data w)" "\<forall>(k, b) \<in> set (artifact_data w). is_locked b"
  shows "add_new_artifact_to_user userId a w =
           (case get_reinforcement_items_from_disassembly a of
              Inl e \<Rightarrow> (Inl e, w)
            | Inr y \<Rightarrow>
                (Inr (), w\<lparr>user_data := add_artifact_upgrade_items userId y (user_data w)\<rparr>))"
proof -
  have "lowest_level_artifact_id (artifact_data w) = None"
    using assms(2) by (simp add: lowest_none_iff)
  then show ?thesis using assms(1)
    by (simp add: add_new_artifact_to_user_def is_artifact_storage_full_def)
qed

lemma locked_survives_add:
  assumes dist: "distinct (map fst (artifact_data w))"
    and fresh: "artifact_id a \<notin> fst ` set (artifact_data w)"
    and mem: "(k, b) \<in> set (artifact_data w)" and locked: "is_locked b"
  shows "(k, b) \<in> set (artifact_data (snd (add_new_artifact_to_user userId a w)))"
proof (cases "is_artifact_storage_full (artifact_data w)")
  case False
  then show ?thesis using mem fresh
    by (simp add: add_new_artifact_to_user_def add_new_artifact_def update_fresh)
next
  case True
  show ?thesis
  proof (cases "lowest_level_artifact_id (artifact_data w)")
    case None
    then show ?thesis using True mem
      by (simp add: add_new_artifact_to_user_def split: sum.splits)
  next
    case (Some lid)
    from lowest_some[OF Some] obtain art where
      art: "(lid, art) \<in> set (artifact_data w)" "\<not> is_locked art" by blast
    have "k \<noteq> lid"
    proof
      assume "k = lid"
      with mem art(1) dist have "b = art" by (metis eq_key_imp_eq_value)
      with locked art(2) show False by simp
    qed
    then have "(k, b) \<in> set (AList.delete lid (artifact_data w))"
      using mem by (simp add: set_delete)
    moreover have "artifact_id a \<notin> fst ` set (AList.delete lid (artifact_data w))"
      using fresh by (rule delete_notin_keys)
    ultimately have "(k, b) \<in> set (add_new_artifact a (AList.delete lid (artifact_data w)))"
      by (simp add: add_new_artifact_def update_fresh)
    moreover have "lid \<in> fst ` set (artifact_data w)" using Some by (rule lowest_is_key)
    ultimately show ?thesis using True Some
      by (simp add: add_new_artifact_to_user_def delete_artifact_def)
  qed
qed

text \<open>
  Claim C4. The new artifact carries an id that is not yet a key of the collection, which is
  what \<open>generate_random_artifact\<close> establishes before it calls
  \<open>add_new_artifact_to_user\<close>. Then every locked artifact of the collection is still in it,
  unchanged, after the call, whatever its level and whatever the outcome of the call. When
  the collection is full and every artifact is locked, the collection is exactly what it
  was and the new artifact is not in it; the call returns and credits the ledger of the user
  with the disassembly yield of the new artifact whenever that yield is computed, which is
  the case for every artifact of level 1, the level of a generated artifact, and then the
  yield is the base of the rarity; if the computation of the yield raises, the call raises
  and leaves the state as it was.
\<close>

theorem add_artifact_keeps_locked:
  assumes "distinct (map fst (artifact_data w))"
    and "artifact_id a \<notin> fst ` set (artifact_data w)"
  shows "(\<forall>(k, b) \<in> set (artifact_data w). is_locked b \<longrightarrow>
            (k, b) \<in> set (artifact_data (snd (add_new_artifact_to_user userId a w))))
       \<and> (20 \<le> length (artifact_data w) \<and> (\<forall>(k, b) \<in> set (artifact_data w). is_locked b) \<longrightarrow>
            artifact_data (snd (add_new_artifact_to_user userId a w)) = artifact_data w
            \<and> artifact_id a \<notin> fst ` set (artifact_data (snd (add_new_artifact_to_user userId a w)))
            \<and> (\<forall>y. get_reinforcement_items_from_disassembly a = Inr y \<longrightarrow>
                  fst (add_new_artifact_to_user userId a w) = Inr ()
                  \<and> user_data (snd (add_new_artifact_to_user userId a w)) =
                      add_artifact_upgrade_items userId y (user_data w)
                  \<and> (\<forall>u. user_data w userId = Some u \<longrightarrow>
                        user_data (snd (add_new_artifact_to_user userId a w)) userId =
                          Some (u\<lparr>artifact_upgrade_items := artifact_upgrade_items u + y\<rparr>)))
            \<and> (\<forall>e. get_reinforcement_items_from_disassembly a = Inl e \<longrightarrow>
                  add_new_artifact_to_user userId a w = (Inl e, w))
            \<and> (level a = 1 \<longrightarrow>
                  get_reinforcement_items_from_disassembly a
                    = Inr (dict_get (map_of rarity_to_items (rarity a)) 0)))"
proof (intro conjI impI allI)
  show "\<forall>(k, b) \<in> set (artifact_data w). is_locked b \<longrightarrow>
            (k, b) \<in> set (artifact_data (snd (add_new_artifact_to_user userId a w)))"
    using locked_survives_add[OF assms] by blast
next
  assume h: "20 \<le> length (artifact_data w) \<and> (\<forall>(k, b) \<in> set (artifact_data w). is_locked b)"
  then have e: "add_new_artifact_to_user userId a w =
           (case get_reinforcement_items_from_disassembly a of
              Inl e \<Rightarrow> (Inl e, w)
            | Inr y \<Rightarrow>
                (Inr (), w\<lparr>user_data := add_artifact_upgrade_items userId y (user_data w)\<rparr>))"
    using all_locked_add by blast
  show d: "artifact_data (snd (add_new_artifact_to_user userId a w)) = artifact_data w"
    by (simp add: e split: sum.splits)
  show "artifact_id a \<notin> fst ` set (artifact_data (snd (add_new_artifact_to_user userId a w)))"
    unfolding d by (rule assms(2))
  {
    fix y
    assume y: "get_reinforcement_items_from_disassembly a = Inr y"
    show "fst (add_new_artifact_to_user userId a w) = Inr ()" by (simp add: e y)
    show "user_data (snd (add_new_artifact_to_user userId a w)) =
            add_artifact_upgrade_items userId y (user_data w)"
      by (simp add: e y)
    fix u
    assume "user_data w userId = Some u"
    then show "user_data (snd (add_new_artifact_to_user userId a w)) userId =
                 Some (u\<lparr>artifact_upgrade_items := artifact_upgrade_items u + y\<rparr>)"
      by (simp add: e y add_artifact_upgrade_items_def)
  }
  {
    fix err
    assume "get_reinforcement_items_from_disassembly a = Inl err"
    then show "add_new_artifact_to_user userId a w = (Inl err, w)" by (simp add: e)
  }
next
  assume "level a = 1"
  then show "get_reinforcement_items_from_disassembly a
                    = Inr (dict_get (map_of rarity_to_items (rarity a)) 0)"
    by (rule yield_level_one)
qed

lemma eviction_leaves_ledger:
  assumes "lowest_level_artifact_id (artifact_data w) = Some lid"
  shows "user_data (snd (add_new_artifact_to_user userId a w)) = user_data w"
  using assms by (simp add: add_new_artifact_to_user_def)

subsection \<open>The sample collection\<close>

lemma sample_store_keys: "map fst (sample_store locked) = [1..20]"
  by (simp add: sample_store_def comp_def)

lemma sample_store_length: "length (sample_store locked) = 20"
  by (simp add: sample_store_def)

lemma sample_store_locked: "\<forall>(k, b) \<in> set (sample_store locked). is_locked b = locked"
  by (auto simp: sample_store_def)

lemma sample_store_unfold:
  "sample_store locked =
     (1, (Artifact 1 [] [] rarity_common)\<lparr>level := 1, is_locked := locked\<rparr>)
     # (2, (Artifact 2 [] [] rarity_common)\<lparr>level := 1, is_locked := locked\<rparr>)
     # map (\<lambda>i. (i, (Artifact i [] [] rarity_common)\<lparr>level := 2, is_locked := locked\<rparr>)) [3..20]"
  by (simp add: sample_store_def upto_rec1[of 1 20] upto_rec1[of 2 20])

lemma scan_skip:
  "\<forall>(k, b) \<in> set d. \<not> level_below (level b) (snd st) \<Longrightarrow> foldl scan_step st d = st"
  by (induction d arbitrary: st) (auto simp: scan_step_def)

lemma sample_store_lowest: "lowest_level_artifact_id (sample_store False) = Some 1"
proof -
  have "foldl scan_step (Some 1, Some 1)
          (map (\<lambda>i. (i, (Artifact i [] [] rarity_common)\<lparr>level := 2, is_locked := False\<rparr>)) [3..20])
        = (Some 1, Some 1)"
    by (rule scan_skip) (auto simp: level_below_def)
  then show ?thesis
    by (simp add: lowest_level_artifact_id_def sample_store_unfold scan_step_def level_below_def
        Artifact_def)
qed

lemma length_delete_distinct:
  "distinct (map fst d) \<Longrightarrow> k \<in> fst ` set d \<Longrightarrow> Suc (length (AList.delete k d)) = length d"
proof (induction d)
  case Nil
  then show ?case by simp
next
  case (Cons p d)
  show ?case
  proof (cases "fst p = k")
    case True
    with Cons.prems(1) have "k \<notin> fst ` set d" by auto
    then show ?thesis using True by simp
  next
    case False
    with Cons.prems have "distinct (map fst d)" "k \<in> fst ` set d" by auto
    from Cons.IH[OF this] show ?thesis using False by simp
  qed
qed

lemma eviction_result:
  assumes full: "20 \<le> length (artifact_data w)"
    and low: "lowest_level_artifact_id (artifact_data w) = Some lid"
  shows "add_new_artifact_to_user userId a w =
           (Inr (), w\<lparr>artifact_data := add_new_artifact a (AList.delete lid (artifact_data w))\<rparr>)"
  using assms lowest_is_key[OF low]
  by (simp add: add_new_artifact_to_user_def is_artifact_storage_full_def delete_artifact_def)

lemma eviction_keeps_size:
  assumes dist: "distinct (map fst (artifact_data w))"
    and full: "length (artifact_data w) = 20"
    and low: "lowest_level_artifact_id (artifact_data w) = Some lid"
    and fresh: "artifact_id a \<notin> fst ` set (artifact_data w)"
  shows "length (artifact_data (snd (add_new_artifact_to_user userId a w))) = 20"
proof -
  have k: "lid \<in> fst ` set (artifact_data w)" using low by (rule lowest_is_key)
  have "artifact_id a \<notin> fst ` set (AList.delete lid (artifact_data w))"
    using fresh by (rule delete_notin_keys)
  then have "length (add_new_artifact a (AList.delete lid (artifact_data w)))
      = Suc (length (AList.delete lid (artifact_data w)))"
    by (simp add: add_new_artifact_def update_fresh)
  also have "\<dots> = 20" using length_delete_distinct[OF dist k] full by simp
  finally show ?thesis using eviction_result[OF _ low, of userId a] full by simp
qed

text \<open>
  Claim C2 at a concrete input: the full collection of unlocked artifacts, and a user whose
  ledger holds 0 enhancement items. Adding the artifact 21 removes the artifact 1, the first
  of lowest level, stores the new one and keeps the size at 20, but the ledger still holds
  0 enhancement items, although the yield of the removed artifact is 1.
\<close>

theorem eviction_credits_nothing:
  "fst (add_new_artifact_to_user ''u'' (Artifact 21 [] [] rarity_common)
      \<lparr>artifact_data = sample_store False, user_data = sample_ledger\<rparr>) = Inr ()
   \<and> map_of (artifact_data (snd (add_new_artifact_to_user ''u'' (Artifact 21 [] [] rarity_common)
      \<lparr>artifact_data = sample_store False, user_data = sample_ledger\<rparr>))) 1 = None
   \<and> map_of (artifact_data (snd (add_new_artifact_to_user ''u'' (Artifact 21 [] [] rarity_common)
      \<lparr>artifact_data = sample_store False, user_data = sample_ledger\<rparr>))) 21
       = Some (Artifact 21 [] [] rarity_common)
   \<and> length (artifact_data (snd (add_new_artifact_to_user ''u'' (Artifact 21 [] [] rarity_common)
      \<lparr>artifact_data = sample_store False, user_data = sample_ledger\<rparr>))) = 20
   \<and> user_data (snd (add_new_artifact_to_user ''u'' (Artifact 21 [] [] rarity_common)
      \<lparr>artifact_data = sample_store False, user_data = sample_ledger\<rparr>)) ''u''
       = Some \<lparr>coins = 150, artifact_upgrade_items = 0, artifact_re_roll_items = 0\<rparr>
   \<and> map_option get_reinforcement_items_from_disassembly (map_of (sample_store False) 1)
       = Some (Inr 1)"
proof -
  define w where "w = \<lparr>artifact_data = sample_store False, user_data = sample_ledger\<rparr>"
  define new where "new = Artifact 21 [] [] rarity_common"
  have low: "lowest_level_artifact_id (artifact_data w) = Some 1"
    by (simp add: w_def sample_store_lowest)
  have len: "length (artifact_data w) = 20" by (simp add: w_def sample_store_length)
  have dist: "distinct (map fst (artifact_data w))" by (simp add: w_def sample_store_keys)
  have fresh: "artifact_id new \<notin> fst ` set (artifact_data w)"
  proof -
    have "fst ` set (artifact_data w) = set [1..20]"
      using sample_store_keys[of False] by (simp add: w_def flip: set_map)
    then show ?thesis by (simp add: new_def Artifact_def)
  qed
  have e: "add_new_artifact_to_user ''u'' new w =
           (Inr (), w\<lparr>artifact_data := add_new_artifact new (AList.delete 1 (artifact_data w))\<rparr>)"
    using len low by (intro eviction_result) simp_all
  have 0: "fst (add_new_artifact_to_user ''u'' new w) = Inr ()"
    unfolding e by simp
  have 1: "map_of (artifact_data (snd (add_new_artifact_to_user ''u'' new w))) 1 = None"
    unfolding e by (simp add: add_new_artifact_def update_conv' delete_conv' new_def Artifact_def)
  have 2: "map_of (artifact_data (snd (add_new_artifact_to_user ''u'' new w))) 21 = Some new"
    unfolding e by (simp add: add_new_artifact_def update_conv' new_def Artifact_def)
  have 3: "length (artifact_data (snd (add_new_artifact_to_user ''u'' new w))) = 20"
    using dist len low fresh by (rule eviction_keeps_size)
  have 4: "user_data (snd (add_new_artifact_to_user ''u'' new w)) ''u''
       = Some \<lparr>coins = 150, artifact_upgrade_items = 0, artifact_re_roll_items = 0\<rparr>"
    unfolding e by (simp add: w_def sample_ledger_def)
  have 5: "map_option get_reinforcement_items_from_disassembly (map_of (sample_store False) 1)
      = Some (Inr 1)"
    by (simp add: sample_store_unfold yield_level_one Artifact_def base_items_lookup dict_get_def)
  show ?thesis using 0 1 2 3 4 5 unfolding w_def new_def by blast
qed

lemma sample_store_fresh: "artifact_id (Artifact 21 nm descr rar) \<notin> fst ` set (sample_store locked)"
proof -
  have "fst ` set (sample_store locked) = set [1..20]"
    using sample_store_keys[of locked] by (simp flip: set_map)
  then show ?thesis by (simp add: Artifact_def)
qed

text \<open>Claim C1 on the full sample collection.\<close>

theorem add_artifact_keeps_capacity_witness:
  "length (artifact_data \<lparr>artifact_data = sample_store False, user_data = sample_ledger\<rparr>) \<le> 20
   \<and> length (artifact_data (snd (add_new_artifact_to_user ''u'' (Artifact 21 [] [] rarity_common)
         \<lparr>artifact_data = sample_store False, user_data = sample_ledger\<rparr>))) \<le> 20"
  using add_artifact_keeps_capacity
          [of "\<lparr>artifact_data = sample_store False, user_data = sample_ledger\<rparr>" "''u''"
              "Artifact 21 [] [] rarity_common"]
  by (simp add: sample_store_length)

text \<open>Claim C4 on the full collection of locked artifacts: adding a Rare artifact of
  level 1 returns, leaves the collection as it is and credits 20 enhancement items.\<close>

theorem add_artifact_keeps_locked_witness:
  "fst (add_new_artifact_to_user ''u'' (Artifact 21 [] [] rarity_rare)
       \<lparr>artifact_data = sample_store True, user_data = sample_ledger\<rparr>) = Inr ()
   \<and> artifact_data (snd (add_new_artifact_to_user ''u'' (Artifact 21 [] [] rarity_rare)
       \<lparr>artifact_data = sample_store True, user_data = sample_ledger\<rparr>)) = sample_store True
   \<and> user_data (snd (add_new_artifact_to_user ''u'' (Artifact 21 [] [] rarity_rare)
       \<lparr>artifact_data = sample_store True, user_data = sample_ledger\<rparr>)) ''u''
       = Some \<lparr>coins = 150, artifact_upgrade_items = 20, artifact_re_roll_items = 0\<rparr>"
proof -
  define w where "w = \<lparr>artifact_data = sample_store True, user_data = sample_ledger\<rparr>"
  define new where "new = Artifact 21 [] [] rarity_rare"
  have dist: "distinct (map fst (artifact_data w))" by (simp add: w_def sample_store_keys)
  have fresh: "artifact_id new \<notin> fst ` set (artifact_data w)"
    by (simp add: w_def new_def sample_store_fresh)
  have full: "20 \<le> length (artifact_data w) \<and> (\<forall>(k, b) \<in> set (artifact_data w). is_locked b)"
    using sample_store_locked[of True] by (simp add: w_def sample_store_length)
  have u: "user_data w ''u'' = Some \<lparr>coins = 150, artifact_upgrade_items = 0, artifact_re_roll_items = 0\<rparr>"
    by (simp add: w_def sample_ledger_def)
  have l: "level new = 1" by (simp add: new_def Artifact_def)
  have b: "dict_get (map_of rarity_to_items (rarity new)) 0 = 20"
    by (simp add: new_def Artifact_def base_items_lookup dict_get_def)
  note t = add_artifact_keeps_locked[OF dist fresh, of "''u''"]
  from t full l b have y: "get_reinforcement_items_from_disassembly new = Inr 20" by simp
  from t full y have "fst (add_new_artifact_to_user ''u'' new w) = Inr ()"
    and "artifact_data (snd (add_new_artifact_to_user ''u'' new w)) = artifact_data w"
    by blast+
  moreover from t full y u
  have "user_data (snd (add_new_artifact_to_user ''u'' new w)) ''u''
       = Some (\<lparr>coins = 150, artifact_upgrade_items = 0, artifact_re_roll_items = 0\<rparr>
                 \<lparr>artifact_upgrade_items := artifact_upgrade_items
                    \<lparr>coins = 150, artifact_upgrade_items = 0, artifact_re_roll_items = 0\<rparr> + 20\<rparr>)"
    by blast
  ultimately show ?thesis by (simp add: w_def new_def)
qed

section \<open>Enhancement\<close>

lemma update_artifact_lookup:
  "map_of d k = Some b \<Longrightarrow> map_of (snd (update_artifact b d)) k = Some b"
  by (simp add: update_artifact_def update_conv')

lemma enhance_missing:
  "get_artifact_by_id aid (artifact_data w) = None \<Longrightarrow>
   enhance_artifact userId aid n w = ((False, EnhanceMissing), w)"
  by (simp add: enhance_artifact_def)

lemma enhance_success_iff:
  assumes "get_artifact_by_id aid (artifact_data w) = Some art"
  shows "fst (fst (enhance_artifact userId aid n w)) \<longleftrightarrow>
           2 * level art \<le> n
           \<and> (\<exists>u. get_user_by_id userId (user_data w) = Some u \<and> 100 * level art \<le> coins u)"
  using assms by (auto simp: enhance_artifact_def Let_def split: option.splits)

lemma enhance_failure:
  "\<not> fst (fst (enhance_artifact userId aid n w)) \<Longrightarrow> snd (enhance_artifact userId aid n w) = w"
  by (auto simp: enhance_artifact_def Let_def split: option.splits if_splits)

lemma enhance_success:
  assumes art: "get_artifact_by_id aid (artifact_data w) = Some art"
    and ok: "fst (fst (enhance_artifact userId aid n w))"
    and u: "user_data w userId = Some u"
  shows "map_option level (get_artifact_by_id aid (artifact_data (snd (enhance_artifact userId aid n w))))
           = Some (level art + 1)"
    and "user_data (snd (enhance_artifact userId aid n w)) userId =
           Some (u\<lparr>coins := coins u - 100 * level art,
                   artifact_upgrade_items := artifact_upgrade_items u - 2 * level art\<rparr>)"
proof -
  from enhance_success_iff[OF art] ok u
  have c: "2 * level art \<le> n" "100 * level art \<le> coins u"
    by (auto simp: get_user_by_id_def)
  define art' where "art' = art\<lparr>level := level art + 1\<rparr>"
  have e: "snd (enhance_artifact userId aid n w) =
      \<lparr>artifact_data = snd (update_artifact art' (AList.update aid art' (artifact_data w))),
       user_data = update_user_coins userId (- (100 * level art))
                     (add_artifact_upgrade_items userId (- (2 * level art)) (user_data w))\<rparr>"
    using art u c by (simp add: enhance_artifact_def Let_def get_user_by_id_def art'_def)
  have "map_of (AList.update aid art' (artifact_data w)) aid = Some art'"
    by (simp add: update_conv')
  then have "map_of (snd (update_artifact art' (AList.update aid art' (artifact_data w)))) aid
      = Some art'" by (rule update_artifact_lookup)
  then show "map_option level (get_artifact_by_id aid (artifact_data (snd (enhance_artifact userId aid n w))))
           = Some (level art + 1)"
    by (simp add: e get_artifact_by_id_def art'_def)
  show "user_data (snd (enhance_artifact userId aid n w)) userId =
           Some (u\<lparr>coins := coins u - 100 * level art,
                   artifact_upgrade_items := artifact_upgrade_items u - 2 * level art\<rparr>)"
    using u by (simp add: e update_user_coins_def add_artifact_upgrade_items_def)
qed

text \<open>
  Claim C7. For an artifact stored at level \<open>L\<close>, \<open>enhance_artifact\<close> succeeds exactly when
  the count of enhancement items supplied by the caller is at least \<open>2 * L\<close> and the user
  has a ledger entry with at least \<open>100 * L\<close> coins, both taken from the level before the
  increment. On success the stored level is \<open>L + 1\<close>, the item count of the ledger has
  dropped by \<open>2 * L\<close> and the coin balance by \<open>100 * L\<close>. On every failure (artifact absent,
  items short, coins short) the state is unchanged.
\<close>

theorem enhance_artifact_cost:
  "(get_artifact_by_id aid (artifact_data w) = None \<longrightarrow>
      enhance_artifact userId aid n w = ((False, EnhanceMissing), w))
   \<and> (get_artifact_by_id aid (artifact_data w) = Some art \<longrightarrow>
        (fst (fst (enhance_artifact userId aid n w)) \<longleftrightarrow>
           2 * level art \<le> n
           \<and> (\<exists>u. get_user_by_id userId (user_data w) = Some u \<and> 100 * level art \<le> coins u))
      \<and> (fst (fst (enhance_artifact userId aid n w)) \<longrightarrow>
           (\<forall>u. user_data w userId = Some u \<longrightarrow>
              map_option level
                (get_artifact_by_id aid (artifact_data (snd (enhance_artifact userId aid n w))))
                = Some (level art + 1)
              \<and> user_data (snd (enhance_artifact userId aid n w)) userId =
                  Some (u\<lparr>coins := coins u - 100 * level art,
                          artifact_upgrade_items := artifact_upgrade_items u - 2 * level art\<rparr>))))
   \<and> (\<not> fst (fst (enhance_artifact userId aid n w)) \<longrightarrow>
        snd (enhance_artifact userId aid n w) = w)"
  using enhance_missing[of aid w userId n] enhance_success_iff[of aid w art userId n]
    enhance_success[of aid w art userId n] enhance_failure[of userId aid n w]
  by blast

text \<open>
  Claim C7 at level 3: with 6 items and 300 coins the enhancement succeeds, the level
  becomes 4 and both counts drop to 0; with 5 items it fails.
\<close>

theorem enhance_artifact_cost_witness:
  "fst (fst (enhance_artifact ''u'' 5 6
       \<lparr>artifact_data = [(5, (Artifact 5 [] [] rarity_epic)\<lparr>level := 3\<rparr>)],
        user_data = [''u'' \<mapsto> \<lparr>coins = 300, artifact_upgrade_items = 6,
                                 artifact_re_roll_items = 0\<rparr>]\<rparr>))
   \<and> map_option level (get_artifact_by_id 5 (artifact_data (snd (enhance_artifact ''u'' 5 6
       \<lparr>artifact_data = [(5, (Artifact 5 [] [] rarity_epic)\<lparr>level := 3\<rparr>)],
        user_data = [''u'' \<mapsto> \<lparr>coins = 300, artifact_upgrade_items = 6,
                                 artifact_re_roll_items = 0\<rparr>]\<rparr>)))) = Some 4
   \<and> user_data (snd (enhance_artifact ''u'' 5 6
       \<lparr>artifact_data = [(5, (Artifact 5 [] [] rarity_epic)\<lparr>level := 3\<rparr>)],
        user_data = [''u'' \<mapsto> \<lparr>coins = 300, artifact_upgrade_items = 6,
                                 artifact_re_roll_items = 0\<rparr>]\<rparr>)) ''u''
       = Some \<lparr>coins = 0, artifact_upgrade_items = 0, artifact_re_roll_items = 0\<rparr>
   \<and> \<not> fst (fst (enhance_artifact ''u'' 5 5
       \<lparr>artifact_data = [(5, (Artifact 5 [] [] rarity_epic)\<lparr>level := 3\<rparr>)],
        user_data = [''u'' \<mapsto> \<lparr>coins = 300, artifact_upgrade_items = 6,
                                 artifact_re_roll_items = 0\<rparr>]\<rparr>))"
proof -
  define w where "w = \<lparr>artifact_data = [(5, (Artifact 5 [] [] rarity_epic)\<lparr>level := 3\<rparr>)],
        user_data = [''u'' \<mapsto> \<lparr>coins = 300, artifact_upgrade_items = 6,
                                 artifact_re_roll_items = 0\<rparr>]\<rparr>"
  define art where "art = (Artifact 5 [] [] rarity_epic)\<lparr>level := 3\<rparr>"
  have a: "get_artifact_by_id 5 (artifact_data w) = Some art"
    by (simp add: w_def art_def get_artifact_by_id_def)
  have u: "get_user_by_id ''u'' (user_data w)
      = Some \<lparr>coins = 300, artifact_upgrade_items = 6, artifact_re_roll_items = 0\<rparr>"
    "user_data w ''u''
      = Some \<lparr>coins = 300, artifact_upgrade_items = 6, artifact_re_roll_items = 0\<rparr>"
    by (simp_all add: w_def get_user_by_id_def)
  have l: "level art = 3" by (simp add: art_def)
  have "fst (fst (enhance_artifact ''u'' 5 6 w))"
    using enhance_artifact_cost[of 5 w "''u''" 6 art] a u l by simp
  moreover from this have "map_option level
                (get_artifact_by_id 5 (artifact_data (snd (enhance_artifact ''u'' 5 6 w))))
                = Some 4
     \<and> user_data (snd (enhance_artifact ''u'' 5 6 w)) ''u'' =
        Some \<lparr>coins = 0, artifact_upgrade_items = 0, artifact_re_roll_items = 0\<rparr>"
    using enhance_artifact_cost[of 5 w "''u''" 6 art] a u l by simp
  moreover have "\<not> fst (fst (enhance_artifact ''u'' 5 5 w))"
    using enhance_artifact_cost[of 5 w "''u''" 5 art] a u l by simp
  ultimately show ?thesis unfolding w_def by blast
qed

section \<open>The lottery\<close>

subsection \<open>The draws\<close>

lemma randint_below: "x < nat (b - a + 1) \<Longrightarrow> randint a b x = a + int x"
  by (simp add: randint_def)

lemma randint_range:
  assumes "a \<le> b"
  shows "randint a b x \<in> {a..b}"
proof -
  have "0 < nat (b - a + 1)" using assms by simp
  then have "x mod nat (b - a + 1) < nat (b - a + 1)" by simp
  then have "int (x mod nat (b - a + 1)) < b - a + 1" using assms by linarith
  then show ?thesis by (simp add: randint_def)
qed

lemma randint_bij:
  assumes "a \<le> b"
  shows "bij_betw (randint a b) {0..<nat (b - a + 1)} {a..b}"
proof (rule bij_betw_byWitness[where f' = "\<lambda>v. nat (v - a)"])
  show "\<forall>x \<in> {0..<nat (b - a + 1)}. nat (randint a b x - a) = x"
    by (simp add: randint_below)
  show "\<forall>v \<in> {a..b}. randint a b (nat (v - a)) = v"
    by (simp add: randint_below)
  show "randint a b ` {0..<nat (b - a + 1)} \<subseteq> {a..b}"
    using randint_range[OF assms] by blast
  show "(\<lambda>v. nat (v - a)) ` {a..b} \<subseteq> {0..<nat (b - a + 1)}"
    by auto
qed

lemma randint_uniform:
  "bij_betw (randint 1 100) {0..<100} {1..100}"
  "bij_betw (randint 1 3) {0..<3} {1..3}"
  "bij_betw (randint 1 120) {0..<120} {1..120}"
  using randint_bij[of 1 100] randint_bij[of 1 3] randint_bij[of 1 120] by simp_all

lemma bucket_sizes:
  "card {x \<in> {0..<100}. randint 1 100 x \<in> {1..5}} = 5"
  "card {x \<in> {0..<100}. randint 1 100 x \<in> {6..15}} = 10"
  "card {x \<in> {0..<100}. randint 1 100 x \<in> {16..35}} = 20"
  "card {x \<in> {0..<100}. randint 1 100 x \<in> {36..100}} = 65"
proof -
  have e: "x < 100 \<Longrightarrow> randint 1 100 x = 1 + int x" for x by (simp add: randint_def)
  have "{x \<in> {0..<100}. randint 1 100 x \<in> {1..5}} = {0..<5}" by (auto simp: e)
  then show "card {x \<in> {0..<100}. randint 1 100 x \<in> {1..5}} = 5" by simp
  have "{x \<in> {0..<100}. randint 1 100 x \<in> {6..15}} = {5..<15}" by (auto simp: e)
  then show "card {x \<in> {0..<100}. randint 1 100 x \<in> {6..15}} = 10" by simp
  have "{x \<in> {0..<100}. randint 1 100 x \<in> {16..35}} = {15..<35}" by (auto simp: e)
  then show "card {x \<in> {0..<100}. randint 1 100 x \<in> {16..35}} = 20" by simp
  have "{x \<in> {0..<100}. randint 1 100 x \<in> {36..100}} = {35..<100}" by (auto simp: e)
  then show "card {x \<in> {0..<100}. randint 1 100 x \<in> {36..100}} = 65" by simp
qed

subsection \<open>Generation\<close>

lemma pick_artifact_id_fresh:
  "pick_artifact_id xs d = Some c \<Longrightarrow>
     c \<in> randint 1 99999 ` set xs \<and> c \<notin> fst ` set d \<and> c \<in> {1..99999}"
proof (induction xs)
  case Nil
  then show ?case by simp
next
  case (Cons x xs)
  have "randint 1 99999 x \<in> {1..99999}" by (rule randint_range) simp
  then show ?case using Cons by (auto simp: Let_def split: if_splits)
qed

lemma pick_artifact_id_total:
  "\<exists>x \<in> set xs. randint 1 99999 x \<notin> fst ` set d \<Longrightarrow> \<exists>c. pick_artifact_id xs d = Some c"
  by (induction xs) (auto simp: Let_def)

lemma rarity_of_roll_base:
  "dict_get (map_of rarity_to_items (rarity_of_roll roll)) 0 =
     (if roll \<le> 50 then 1 else if roll \<le> 80 then 5 else if roll \<le> 95 then 20
      else if roll \<le> 99 then 50 else 100)"
  by (simp add: rarity_of_roll_def base_items_lookup dict_get_def)

lemma add_level_one:
  assumes "level a = 1"
  shows "fst (add_new_artifact_to_user userId a w) = Inr ()"
  using yield_level_one[OF assms]
  by (simp add: add_new_artifact_to_user_def split: option.splits)

lemma add_artifact_coins:
  "map_option coins (user_data (snd (add_new_artifact_to_user userId a w)) userId)
     = map_option coins (user_data w userId)"
  by (auto simp: add_new_artifact_to_user_def add_artifact_upgrade_items_def
      split: option.splits sum.splits)

lemma generate_unfold:
  assumes "pick_artifact_id (rnd_ids r) (artifact_data w) = Some k"
  shows "generate_random_artifact r userId w =
           Some (Inr (Artifact k (rnd_name r) (rnd_description r)
                        (rarity_of_roll (randint 1 100 (rnd_rarity_roll r)))),
                 snd (add_new_artifact_to_user userId
                        (Artifact k (rnd_name r) (rnd_description r)
                           (rarity_of_roll (randint 1 100 (rnd_rarity_roll r)))) w))"
proof -
  define A where "A = Artifact k (rnd_name r) (rnd_description r)
                           (rarity_of_roll (randint 1 100 (rnd_rarity_roll r)))"
  have "level A = 1" by (simp add: A_def Artifact_def)
  from add_level_one[OF this, of userId w]
  obtain w' where e: "add_new_artifact_to_user userId A w = (Inr (), w')"
    by (metis prod.collapse)
  show ?thesis
    using assms e by (simp add: generate_random_artifact_def Let_def A_def[symmetric])
qed

lemma add_below_capacity:
  assumes "length (artifact_data w) < 20" and "artifact_id a \<notin> fst ` set (artifact_data w)"
  shows "add_new_artifact_to_user userId a w =
           (Inr (), w\<lparr>artifact_data := artifact_data w @ [(artifact_id a, a)]\<rparr>)"
  using assms
  by (simp add: add_new_artifact_to_user_def is_artifact_storage_full_def add_new_artifact_def
      update_fresh)

lemma add_with_eviction:
  assumes "20 \<le> length (artifact_data w)"
    and "lowest_level_artifact_id (artifact_data w) = Some lid"
    and "artifact_id a \<notin> fst ` set (artifact_data w)"
  shows "add_new_artifact_to_user userId a w =
           (Inr (), w\<lparr>artifact_data := AList.delete lid (artifact_data w) @ [(artifact_id a, a)]\<rparr>)"
proof -
  have "artifact_id a \<notin> fst ` set (AList.delete lid (artifact_data w))"
    using assms(3) by (rule delete_notin_keys)
  then show ?thesis
    using eviction_result[OF assms(1,2), of userId a] by (simp add: add_new_artifact_def update_fresh)
qed

lemma add_all_locked_level_one:
  assumes "20 \<le> length (artifact_data w)" and "\<forall>(i, b) \<in> set (artifact_data w). is_locked b"
    and "level a = 1"
  shows "add_new_artifact_to_user userId a w =
           (Inr (), w\<lparr>user_data := add_artifact_upgrade_items userId
                          (dict_get (map_of rarity_to_items (rarity a)) 0) (user_data w)\<rparr>)"
  using all_locked_add[OF assms(1,2), of userId a] yield_level_one[OF assms(3)] by simp

subsection \<open>The four buckets\<close>

lemma draw_refused:
  "user_coins < 100 \<Longrightarrow>
   draw_artifact_lottery r userId user_coins w = Some (Inr (False, NotEnoughCoins), w)"
  by (simp add: draw_artifact_lottery_def)

lemma draw_artifact_bucket:
  assumes "100 \<le> user_coins" "randint 1 100 (rnd_roll r) \<le> 5"
    and "pick_artifact_id (rnd_ids r) (artifact_data w) = Some k"
  shows "draw_artifact_lottery r userId user_coins w =
           Some (Inr (True, FoundArtifact
                    (Artifact k (rnd_name r) (rnd_description r)
                       (rarity_of_roll (randint 1 100 (rnd_rarity_roll r))))),
                 snd (add_new_artifact_to_user userId
                        (Artifact k (rnd_name r) (rnd_description r)
                           (rarity_of_roll (randint 1 100 (rnd_rarity_roll r))))
                        (w\<lparr>user_data := update_user_coins userId (- 100) (user_data w)\<rparr>)))"
proof -
  have "pick_artifact_id (rnd_ids r)
          (artifact_data (w\<lparr>user_data := update_user_coins userId (- 100) (user_data w)\<rparr>)) = Some k"
    using assms(3) by simp
  from generate_unfold[OF this, of userId] show ?thesis
    using assms(1,2) by (simp add: draw_artifact_lottery_def Let_def)
qed

lemma draw_artifact_missing:
  assumes "100 \<le> user_coins" "randint 1 100 (rnd_roll r) \<le> 5"
    and "pick_artifact_id (rnd_ids r) (artifact_data w) = None"
  shows "draw_artifact_lottery r userId user_coins w = None"
  using assms by (simp add: draw_artifact_lottery_def generate_random_artifact_def Let_def)

lemma draw_reroll_bucket:
  assumes "100 \<le> user_coins" "5 < randint 1 100 (rnd_roll r)" "randint 1 100 (rnd_roll r) \<le> 15"
  shows "draw_artifact_lottery r userId user_coins w =
           Some (Inr (True, GotReRollItem),
                 w\<lparr>user_data := add_artifact_re_roll_items userId 1
                      (update_user_coins userId (- 100) (user_data w))\<rparr>)"
  using assms by (simp add: draw_artifact_lottery_def Let_def)

lemma draw_upgrade_bucket:
  assumes "100 \<le> user_coins" "15 < randint 1 100 (rnd_roll r)" "randint 1 100 (rnd_roll r) \<le> 35"
  shows "draw_artifact_lottery r userId user_coins w =
           Some (Inr (True, GotUpgradeItems (randint 1 3 (rnd_reinforcement r))),
                 w\<lparr>user_data := add_artifact_upgrade_items userId (randint 1 3 (rnd_reinforcement r))
                      (update_user_coins userId (- 100) (user_data w))\<rparr>)"
  using assms by (simp add: draw_artifact_lottery_def Let_def)

lemma draw_coin_bucket:
  assumes "100 \<le> user_coins" "35 < randint 1 100 (rnd_roll r)"
  shows "draw_artifact_lottery r userId user_coins w =
           Some (Inr (True, GotCoins (randint 1 120 (rnd_reward r))),
                 w\<lparr>user_data := update_user_coins userId (randint 1 120 (rnd_reward r))
                      (update_user_coins userId (- 100) (user_data w))\<rparr>)"
  using assms by (simp add: draw_artifact_lottery_def Let_def)

lemma draw_coins_after:
  assumes c: "100 \<le> user_coins" and u: "user_data w userId = Some u"
    and d: "draw_artifact_lottery r userId user_coins w = Some (out, w')"
  shows "(\<exists>msg. out = Inr (True, msg))
         \<and> map_option coins (user_data w' userId)
             = Some (coins u - 100
                      + (if 35 < randint 1 100 (rnd_roll r) then randint 1 120 (rnd_reward r)
                         else 0))"
proof -
  consider "randint 1 100 (rnd_roll r) \<le> 5"
    | "5 < randint 1 100 (rnd_roll r)" "randint 1 100 (rnd_roll r) \<le> 15"
    | "15 < randint 1 100 (rnd_roll r)" "randint 1 100 (rnd_roll r) \<le> 35"
    | "35 < randint 1 100 (rnd_roll r)" by linarith
  then show ?thesis
  proof cases
    case 1
    show ?thesis
    proof (cases "pick_artifact_id (rnd_ids r) (artifact_data w)")
      case None
      from draw_artifact_missing[OF c 1 None, of userId] d show ?thesis by simp
    next
      case (Some k)
      from draw_artifact_bucket[OF c 1 Some, of userId] d
      have out: "out = Inr (True, FoundArtifact
                    (Artifact k (rnd_name r) (rnd_description r)
                       (rarity_of_roll (randint 1 100 (rnd_rarity_roll r)))))"
        and w': "w' = snd (add_new_artifact_to_user userId
                        (Artifact k (rnd_name r) (rnd_description r)
                           (rarity_of_roll (randint 1 100 (rnd_rarity_roll r))))
                        (w\<lparr>user_data := update_user_coins userId (- 100) (user_data w)\<rparr>))"
        by simp_all
      have "map_option coins (user_data w' userId) = Some (coins u - 100)"
        unfolding w' add_artifact_coins using u by (simp add: update_user_coins_def)
      then show ?thesis using 1 out by simp
    qed
  next
    case 2
    then show ?thesis using d draw_reroll_bucket[OF c 2, of userId w] u
      by (auto simp: add_artifact_re_roll_items_def update_user_coins_def)
  next
    case 3
    then show ?thesis using d draw_upgrade_bucket[OF c 3, of userId w] u
      by (auto simp: add_artifact_upgrade_items_def update_user_coins_def)
  next
    case 4
    then show ?thesis using d draw_coin_bucket[OF c 4, of userId w] u
      by (auto simp: update_user_coins_def)
  qed
qed

lemma draw_returns:
  assumes "5 < randint 1 100 (rnd_roll r)
           \<or> (\<exists>x \<in> set (rnd_ids r). randint 1 99999 x \<notin> fst ` set (artifact_data w))"
  shows "\<exists>out w'. draw_artifact_lottery r userId user_coins w = Some (out, w')"
proof (cases "user_coins < 100")
  case True
  from draw_refused[OF True, of r userId w] show ?thesis by blast
next
  case False
  then have c: "100 \<le> user_coins" by simp
  show ?thesis
  proof (cases "randint 1 100 (rnd_roll r) \<le> 5")
    case True
    with assms have "\<exists>x \<in> set (rnd_ids r). randint 1 99999 x \<notin> fst ` set (artifact_data w)"
      by simp
    from pick_artifact_id_total[OF this] obtain k where
      "pick_artifact_id (rnd_ids r) (artifact_data w) = Some k" by blast
    from draw_artifact_bucket[OF c True this, of userId] show ?thesis by blast
  next
    case False
    then show ?thesis using c by (auto simp: draw_artifact_lottery_def Let_def)
  qed
qed

text \<open>
  Claim C6. \<open>user_coins\<close> is the balance of the user as the caller passes it. Below 100 the
  lottery refuses and the state is unchanged. From 100 on, whatever the roll, a call that
  returns has not raised and has succeeded, and the coin balance of the ledger is the
  balance before minus 100, plus the coin reward when the roll falls in the coin bucket; so
  the 100 coins are gone also when the outcome is a reroll item, enhancement items or an
  artifact. The call returns whenever the roll is above 5 or one of the drawn ids is unused.
\<close>

theorem draw_lottery_debit:
  "(user_coins < 100 \<longrightarrow>
      draw_artifact_lottery r userId user_coins w = Some (Inr (False, NotEnoughCoins), w))
   \<and> (100 \<le> user_coins \<and> user_data w userId = Some u \<longrightarrow>
        (\<forall>out w'. draw_artifact_lottery r userId user_coins w = Some (out, w') \<longrightarrow>
           (\<exists>msg. out = Inr (True, msg))
           \<and> map_option coins (user_data w' userId)
               = Some (coins u - 100
                        + (if 35 < randint 1 100 (rnd_roll r) then randint 1 120 (rnd_reward r)
                           else 0)))
      \<and> (5 < randint 1 100 (rnd_roll r)
           \<or> (\<exists>x \<in> set (rnd_ids r). randint 1 99999 x \<notin> fst ` set (artifact_data w)) \<longrightarrow>
           (\<exists>out w'. draw_artifact_lottery r userId user_coins w = Some (out, w'))))"
  using draw_refused[of user_coins r userId w] draw_coins_after[of user_coins w userId u r]
    draw_returns[of r w userId user_coins]
  by blast

lemma ledger_update:
  assumes "us userId = Some u"
  shows "update_user_coins userId d us = us(userId \<mapsto> u\<lparr>coins := coins u + d\<rparr>)"
    and "add_artifact_upgrade_items userId d us
          = us(userId \<mapsto> u\<lparr>artifact_upgrade_items := artifact_upgrade_items u + d\<rparr>)"
    and "add_artifact_re_roll_items userId d us
          = us(userId \<mapsto> u\<lparr>artifact_re_roll_items := artifact_re_roll_items u + d\<rparr>)"
  using assms
  by (simp_all add: update_user_coins_def add_artifact_upgrade_items_def
      add_artifact_re_roll_items_def)

lemma draw_stores_artifact:
  assumes c: "100 \<le> user_coins" and roll: "randint 1 100 (rnd_roll r) \<le> 5"
    and u: "user_data w userId = Some u"
    and k: "pick_artifact_id (rnd_ids r) (artifact_data w) = Some k"
    and room: "length (artifact_data w) < 20"
  shows "draw_artifact_lottery r userId user_coins w =
           Some (Inr (True, FoundArtifact
                    (Artifact k (rnd_name r) (rnd_description r)
                       (rarity_of_roll (randint 1 100 (rnd_rarity_roll r))))),
                 w\<lparr>user_data := (user_data w)(userId \<mapsto> u\<lparr>coins := coins u - 100\<rparr>),
                   artifact_data := artifact_data w @
                     [(k, Artifact k (rnd_name r) (rnd_description r)
                            (rarity_of_roll (randint 1 100 (rnd_rarity_roll r))))]\<rparr>)"
proof -
  define A where "A = Artifact k (rnd_name r) (rnd_description r)
                           (rarity_of_roll (randint 1 100 (rnd_rarity_roll r)))"
  define w1 where "w1 = w\<lparr>user_data := update_user_coins userId (- 100) (user_data w)\<rparr>"
  have id: "artifact_id A = k" by (simp add: A_def Artifact_def)
  from pick_artifact_id_fresh[OF k] have f: "artifact_id A \<notin> fst ` set (artifact_data w1)"
    by (simp add: id w1_def)
  have "length (artifact_data w1) < 20" using room by (simp add: w1_def)
  from add_below_capacity[OF this f, of userId]
  have "snd (add_new_artifact_to_user userId A w1)
          = w1\<lparr>artifact_data := artifact_data w1 @ [(k, A)]\<rparr>"
    by (simp add: id)
  then show ?thesis
    using draw_artifact_bucket[OF c roll k, of userId] u
    unfolding A_def[symmetric] w1_def[symmetric]
    by (simp add: w1_def update_user_coins_def)
qed

lemma draw_evicts_artifact:
  assumes c: "100 \<le> user_coins" and roll: "randint 1 100 (rnd_roll r) \<le> 5"
    and u: "user_data w userId = Some u"
    and k: "pick_artifact_id (rnd_ids r) (artifact_data w) = Some k"
    and full: "20 \<le> length (artifact_data w)"
    and low: "lowest_level_artifact_id (artifact_data w) = Some lid"
  shows "draw_artifact_lottery r userId user_coins w =
           Some (Inr (True, FoundArtifact
                    (Artifact k (rnd_name r) (rnd_description r)
                       (rarity_of_roll (randint 1 100 (rnd_rarity_roll r))))),
                 w\<lparr>user_data := (user_data w)(userId \<mapsto> u\<lparr>coins := coins u - 100\<rparr>),
                   artifact_data := AList.delete lid (artifact_data w) @
                     [(k, Artifact k (rnd_name r) (rnd_description r)
                            (rarity_of_roll (randint 1 100 (rnd_rarity_roll r))))]\<rparr>)"
proof -
  define A where "A = Artifact k (rnd_name r) (rnd_description r)
                           (rarity_of_roll (randint 1 100 (rnd_rarity_roll r)))"
  define w1 where "w1 = w\<lparr>user_data := update_user_coins userId (- 100) (user_data w)\<rparr>"
  have id: "artifact_id A = k" by (simp add: A_def Artifact_def)
  from pick_artifact_id_fresh[OF k] have f: "artifact_id A \<notin> fst ` set (artifact_data w1)"
    by (simp add: id w1_def)
  have full1: "20 \<le> length (artifact_data w1)" using full by (simp add: w1_def)
  have low1: "lowest_level_artifact_id (artifact_data w1) = Some lid"
    using low by (simp add: w1_def)
  from add_with_eviction[OF full1 low1 f, of userId]
  have "snd (add_new_artifact_to_user userId A w1)
          = w1\<lparr>artifact_data := AList.delete lid (artifact_data w1) @ [(k, A)]\<rparr>"
    by (simp add: id)
  then show ?thesis
    using draw_artifact_bucket[OF c roll k, of userId] u
    unfolding A_def[symmetric] w1_def[symmetric]
    by (simp add: w1_def update_user_coins_def)
qed

lemma draw_converts_artifact:
  assumes c: "100 \<le> user_coins" and roll: "randint 1 100 (rnd_roll r) \<le> 5"
    and u: "user_data w userId = Some u"
    and k: "pick_artifact_id (rnd_ids r) (artifact_data w) = Some k"
    and full: "20 \<le> length (artifact_data w)"
    and locked: "\<forall>(i, b) \<in> set (artifact_data w). is_locked b"
  shows "draw_artifact_lottery r userId user_coins w =
           Some (Inr (True, FoundArtifact
                    (Artifact k (rnd_name r) (rnd_description r)
                       (rarity_of_roll (randint 1 100 (rnd_rarity_roll r))))),
                 w\<lparr>user_data := (user_data w)(userId \<mapsto>
                      u\<lparr>coins := coins u - 100,
                        artifact_upgrade_items := artifact_upgrade_items u
                          + (if randint 1 100 (rnd_rarity_roll r) \<le> 50 then 1
                             else if randint 1 100 (rnd_rarity_roll r) \<le> 80 then 5
                             else if randint 1 100 (rnd_rarity_roll r) \<le> 95 then 20
                             else if randint 1 100 (rnd_rarity_roll r) \<le> 99 then 50
                             else 100)\<rparr>)\<rparr>)"
proof -
  define A where "A = Artifact k (rnd_name r) (rnd_description r)
                           (rarity_of_roll (randint 1 100 (rnd_rarity_roll r)))"
  define w1 where "w1 = w\<lparr>user_data := update_user_coins userId (- 100) (user_data w)\<rparr>"
  define y :: int where "y = (if randint 1 100 (rnd_rarity_roll r) \<le> 50 then 1
                             else if randint 1 100 (rnd_rarity_roll r) \<le> 80 then 5
                             else if randint 1 100 (rnd_rarity_roll r) \<le> 95 then 20
                             else if randint 1 100 (rnd_rarity_roll r) \<le> 99 then 50
                             else 100)"
  have l: "level A = 1" by (simp add: A_def Artifact_def)
  have b: "dict_get (map_of rarity_to_items (rarity A)) 0 = y"
    unfolding y_def by (simp add: A_def Artifact_def rarity_of_roll_base)
  have full1: "20 \<le> length (artifact_data w1)" using full by (simp add: w1_def)
  have locked1: "\<forall>(i, b) \<in> set (artifact_data w1). is_locked b"
    using locked by (simp add: w1_def)
  have u1: "user_data w1 userId = Some (u\<lparr>coins := coins u - 100\<rparr>)"
    using u by (simp add: w1_def update_user_coins_def)
  from add_all_locked_level_one[OF full1 locked1 l, of userId]
  have "snd (add_new_artifact_to_user userId A w1)
          = w1\<lparr>user_data := add_artifact_upgrade_items userId y (user_data w1)\<rparr>"
    by (simp add: b)
  also have "\<dots> = w\<lparr>user_data := (user_data w)(userId \<mapsto>
                      u\<lparr>coins := coins u - 100,
                        artifact_upgrade_items := artifact_upgrade_items u + y\<rparr>)\<rparr>"
    using u by (simp add: w1_def update_user_coins_def add_artifact_upgrade_items_def)
  finally show ?thesis
    using draw_artifact_bucket[OF c roll k, of userId]
    unfolding A_def[symmetric] w1_def[symmetric] y_def[symmetric]
    by simp
qed

text \<open>
  Claim C5. The caller passes a balance of at least 100 and the user has a ledger entry.
  The roll is \<open>random.randint(1, 100)\<close>: one of the 100 values from 1 to 100, each the image
  of exactly one of 100 successive raw draws; 5 of them fall in the artifact bucket, 10 in
  the reroll bucket, 20 in the enhancement bucket and 65 in the coin bucket.

  A roll from 1 to 5 generates an artifact of level 1 with the first unused id drawn, and the
  call returns it: below capacity the artifact is appended to the collection; at capacity
  with an unlocked artifact, the unlocked artifact of lowest level is removed and the new
  one appended; at capacity with every artifact locked, the collection stays as it is and
  the base yield of the new artifact's rarity is added to the enhancement items. In the
  three cases the ledger is debited by 100 coins.
  A roll from 6 to 15 adds exactly 1 reroll item. A roll from 16 to 35 adds
  \<open>random.randint(1, 3)\<close> enhancement items, one of the values 1, 2, 3, each the image of one
  of 3 successive raw draws. A roll from 36 to 100 adds \<open>random.randint(1, 120)\<close> coins, one
  of the values from 1 to 120, each the image of one of 120 successive raw draws. A user
  with 150 coins whose roll is from 36 to 100 ends with \<open>50 + reward\<close> coins.
\<close>

theorem draw_lottery_buckets:
  assumes "100 \<le> user_coins" and "user_data w userId = Some u"
  shows
   "randint 1 100 (rnd_roll r) \<in> {1..100}
    \<and> bij_betw (randint 1 100) {0..<100} {1..100}
    \<and> card {x \<in> {0..<100}. randint 1 100 x \<in> {1..5}} = 5
    \<and> card {x \<in> {0..<100}. randint 1 100 x \<in> {6..15}} = 10
    \<and> card {x \<in> {0..<100}. randint 1 100 x \<in> {16..35}} = 20
    \<and> card {x \<in> {0..<100}. randint 1 100 x \<in> {36..100}} = 65
    \<and> (randint 1 100 (rnd_roll r) \<in> {1..5}
         \<and> pick_artifact_id (rnd_ids r) (artifact_data w) = Some k
         \<and> length (artifact_data w) < 20 \<longrightarrow>
       draw_artifact_lottery r userId user_coins w =
         Some (Inr (True, FoundArtifact
                  (Artifact k (rnd_name r) (rnd_description r)
                     (rarity_of_roll (randint 1 100 (rnd_rarity_roll r))))),
               w\<lparr>user_data := (user_data w)(userId \<mapsto> u\<lparr>coins := coins u - 100\<rparr>),
                 artifact_data := artifact_data w @
                   [(k, Artifact k (rnd_name r) (rnd_description r)
                          (rarity_of_roll (randint 1 100 (rnd_rarity_roll r))))]\<rparr>))
    \<and> (randint 1 100 (rnd_roll r) \<in> {1..5}
         \<and> pick_artifact_id (rnd_ids r) (artifact_data w) = Some k
         \<and> 20 \<le> length (artifact_data w)
         \<and> lowest_level_artifact_id (artifact_data w) = Some lid \<longrightarrow>
       draw_artifact_lottery r userId user_coins w =
         Some (Inr (True, FoundArtifact
                  (Artifact k (rnd_name r) (rnd_description r)
                     (rarity_of_roll (randint 1 100 (rnd_rarity_roll r))))),
               w\<lparr>user_data := (user_data w)(userId \<mapsto> u\<lparr>coins := coins u - 100\<rparr>),
                 artifact_data := AList.delete lid (artifact_data w) @
                   [(k, Artifact k (rnd_name r) (rnd_description r)
                          (rarity_of_roll (randint 1 100 (rnd_rarity_roll r))))]\<rparr>))
    \<and> (randint 1 100 (rnd_roll r) \<in> {1..5}
         \<and> pick_artifact_id (rnd_ids r) (artifact_data w) = Some k
         \<and> 20 \<le> length (artifact_data w)
         \<and> (\<forall>(i, b) \<in> set (artifact_data w). is_locked b) \<longrightarrow>
       draw_artifact_lottery r userId user_coins w =
         Some (Inr (True, FoundArtifact
                  (Artifact k (rnd_name r) (rnd_description r)
                     (rarity_of_roll (randint 1 100 (rnd_rarity_roll r))))),
               w\<lparr>user_data := (user_data w)(userId \<mapsto>
                    u\<lparr>coins := coins u - 100,
                      artifact_upgrade_items := artifact_upgrade_items u
                        + (if randint 1 100 (rnd_rarity_roll r) \<le> 50 then 1
                           else if randint 1 100 (rnd_rarity_roll r) \<le> 80 then 5
                           else if randint 1 100 (rnd_rarity_roll r) \<le> 95 then 20
                           else if randint 1 100 (rnd_rarity_roll r) \<le> 99 then 50
                           else 100)\<rparr>)\<rparr>))
    \<and> (randint 1 100 (rnd_roll r) \<in> {6..15} \<longrightarrow>
       draw_artifact_lottery r userId user_coins w =
         Some (Inr (True, GotReRollItem),
               w\<lparr>user_data := (user_data w)(userId \<mapsto>
                    u\<lparr>coins := coins u - 100,
                      artifact_re_roll_items := artifact_re_roll_items u + 1\<rparr>)\<rparr>))
    \<and> (randint 1 100 (rnd_roll r) \<in> {16..35} \<longrightarrow>
       draw_artifact_lottery r userId user_coins w =
         Some (Inr (True, GotUpgradeItems (randint 1 3 (rnd_reinforcement r))),
               w\<lparr>user_data := (user_data w)(userId \<mapsto>
                    u\<lparr>coins := coins u - 100,
                      artifact_upgrade_items := artifact_upgrade_items u
                        + randint 1 3 (rnd_reinforcement r)\<rparr>)\<rparr>))
    \<and> randint 1 3 (rnd_reinforcement r) \<in> {1..3}
    \<and> bij_betw (randint 1 3) {0..<3} {1..3}
    \<and> (randint 1 100 (rnd_roll r) \<in> {36..100} \<longrightarrow>
       draw_artifact_lottery r userId user_coins w =
         Some (Inr (True, GotCoins (randint 1 120 (rnd_reward r))),
               w\<lparr>user_data := (user_data w)(userId \<mapsto>
                    u\<lparr>coins := coins u - 100 + randint 1 120 (rnd_reward r)\<rparr>)\<rparr>))
    \<and> randint 1 120 (rnd_reward r) \<in> {1..120}
    \<and> bij_betw (randint 1 120) {0..<120} {1..120}
    \<and> (randint 1 100 (rnd_roll r) \<in> {36..100} \<and> user_coins = 150 \<and> coins u = 150 \<longrightarrow>
       (\<exists>msg w'. draw_artifact_lottery r userId user_coins w = Some (Inr (True, msg), w')
          \<and> map_option coins (user_data w' userId) = Some (50 + randint 1 120 (rnd_reward r))
          \<and> randint 1 120 (rnd_reward r) \<in> {1..120}))"
proof (intro conjI impI)
  show "randint 1 100 (rnd_roll r) \<in> {1..100}" by (rule randint_range) simp
  show "randint 1 3 (rnd_reinforcement r) \<in> {1..3}" by (rule randint_range) simp
  show "randint 1 120 (rnd_reward r) \<in> {1..120}" by (rule randint_range) simp
  show "bij_betw (randint 1 100) {0..<100} {1..100}" by (rule randint_uniform)
  show "bij_betw (randint 1 3) {0..<3} {1..3}" by (rule randint_uniform)
  show "bij_betw (randint 1 120) {0..<120} {1..120}" by (rule randint_uniform)
  show "card {x \<in> {0..<100}. randint 1 100 x \<in> {1..5}} = 5" by (rule bucket_sizes)
  show "card {x \<in> {0..<100}. randint 1 100 x \<in> {6..15}} = 10" by (rule bucket_sizes)
  show "card {x \<in> {0..<100}. randint 1 100 x \<in> {16..35}} = 20" by (rule bucket_sizes)
  show "card {x \<in> {0..<100}. randint 1 100 x \<in> {36..100}} = 65" by (rule bucket_sizes)
next
  assume h: "randint 1 100 (rnd_roll r) \<in> {1..5}
         \<and> pick_artifact_id (rnd_ids r) (artifact_data w) = Some k
         \<and> length (artifact_data w) < 20"
  then have "randint 1 100 (rnd_roll r) \<le> 5" by simp
  from draw_stores_artifact[OF assms(1) this assms(2), of k] h
  show "draw_artifact_lottery r userId user_coins w =
         Some (Inr (True, FoundArtifact
                  (Artifact k (rnd_name r) (rnd_description r)
                     (rarity_of_roll (randint 1 100 (rnd_rarity_roll r))))),
               w\<lparr>user_data := (user_data w)(userId \<mapsto> u\<lparr>coins := coins u - 100\<rparr>),
                 artifact_data := artifact_data w @
                   [(k, Artifact k (rnd_name r) (rnd_description r)
                          (rarity_of_roll (randint 1 100 (rnd_rarity_roll r))))]\<rparr>)"
    by blast
next
  assume h: "randint 1 100 (rnd_roll r) \<in> {1..5}
         \<and> pick_artifact_id (rnd_ids r) (artifact_data w) = Some k
         \<and> 20 \<le> length (artifact_data w)
         \<and> lowest_level_artifact_id (artifact_data w) = Some lid"
  then have "randint 1 100 (rnd_roll r) \<le> 5" by simp
  from draw_evicts_artifact[OF assms(1) this assms(2), of k lid] h
  show "draw_artifact_lottery r userId user_coins w =
         Some (Inr (True, FoundArtifact
                  (Artifact k (rnd_name r) (rnd_description r)
                     (rarity_of_roll (randint 1 100 (rnd_rarity_roll r))))),
               w\<lparr>user_data := (user_data w)(userId \<mapsto> u\<lparr>coins := coins u - 100\<rparr>),
                 artifact_data := AList.delete lid (artifact_data w) @
                   [(k, Artifact k (rnd_name r) (rnd_description r)
                          (rarity_of_roll (randint 1 100 (rnd_rarity_roll r))))]\<rparr>)"
    by blast
next
  assume h: "randint 1 100 (rnd_roll r) \<in> {1..5}
         \<and> pick_artifact_id (rnd_ids r) (artifact_data w) = Some k
         \<and> 20 \<le> length (artifact_data w)
         \<and> (\<forall>(i, b) \<in> set (artifact_data w). is_locked b)"
  then have "randint 1 100 (rnd_roll r) \<le> 5" by simp
  from draw_converts_artifact[OF assms(1) this assms(2), of k] h
  show "draw_artifact_lottery r userId user_coins w =
         Some (Inr (True, FoundArtifact
                  (Artifact k (rnd_name r) (rnd_description r)
                     (rarity_of_roll (randint 1 100 (rnd_rarity_roll r))))),
               w\<lparr>user_data := (user_data w)(userId \<mapsto>
                    u\<lparr>coins := coins u - 100,
                      artifact_upgrade_items := artifact_upgrade_items u
                        + (if randint 1 100 (rnd_rarity_roll r) \<le> 50 then 1
                           else if randint 1 100 (rnd_rarity_roll r) \<le> 80 then 5
                           else if randint 1 100 (rnd_rarity_roll r) \<le> 95 then 20
                           else if randint 1 100 (rnd_rarity_roll r) \<le> 99 then 50
                           else 100)\<rparr>)\<rparr>)"
    by blast
next
  assume "randint 1 100 (rnd_roll r) \<in> {6..15}"
  then have "5 < randint 1 100 (rnd_roll r)" "randint 1 100 (rnd_roll r) \<le> 15" by simp_all
  from draw_reroll_bucket[OF assms(1) this, of userId w]
  show "draw_artifact_lottery r userId user_coins w =
         Some (Inr (True, GotReRollItem),
               w\<lparr>user_data := (user_data w)(userId \<mapsto>
                    u\<lparr>coins := coins u - 100,
                      artifact_re_roll_items := artifact_re_roll_items u + 1\<rparr>)\<rparr>)"
    using assms(2) by (simp add: update_user_coins_def add_artifact_re_roll_items_def)
next
  assume "randint 1 100 (rnd_roll r) \<in> {16..35}"
  then have "15 < randint 1 100 (rnd_roll r)" "randint 1 100 (rnd_roll r) \<le> 35" by simp_all
  from draw_upgrade_bucket[OF assms(1) this, of userId w]
  show "draw_artifact_lottery r userId user_coins w =
         Some (Inr (True, GotUpgradeItems (randint 1 3 (rnd_reinforcement r))),
               w\<lparr>user_data := (user_data w)(userId \<mapsto>
                    u\<lparr>coins := coins u - 100,
                      artifact_upgrade_items := artifact_upgrade_items u
                        + randint 1 3 (rnd_reinforcement r)\<rparr>)\<rparr>)"
    using assms(2) by (simp add: update_user_coins_def add_artifact_upgrade_items_def)
next
  assume "randint 1 100 (rnd_roll r) \<in> {36..100}"
  then have "35 < randint 1 100 (rnd_roll r)" by simp
  from draw_coin_bucket[OF assms(1) this, of userId w]
  show "draw_artifact_lottery r userId user_coins w =
         Some (Inr (True, GotCoins (randint 1 120 (rnd_reward r))),
               w\<lparr>user_data := (user_data w)(userId \<mapsto>
                    u\<lparr>coins := coins u - 100 + randint 1 120 (rnd_reward r)\<rparr>)\<rparr>)"
    using assms(2) by (simp add: update_user_coins_def)
next
  assume h: "randint 1 100 (rnd_roll r) \<in> {36..100} \<and> user_coins = 150 \<and> coins u = 150"
  then have "35 < randint 1 100 (rnd_roll r)" by simp
  from draw_coin_bucket[OF assms(1) this, of userId w]
  have "draw_artifact_lottery r userId user_coins w =
         Some (Inr (True, GotCoins (randint 1 120 (rnd_reward r))),
               w\<lparr>user_data := (user_data w)(userId \<mapsto>
                    u\<lparr>coins := coins u - 100 + randint 1 120 (rnd_reward r)\<rparr>)\<rparr>)"
    using assms(2) by (simp add: update_user_coins_def)
  moreover have "randint 1 120 (rnd_reward r) \<in> {1..120}" by (rule randint_range) simp
  ultimately show "\<exists>msg w'. draw_artifact_lottery r userId user_coins w = Some (Inr (True, msg), w')
          \<and> map_option coins (user_data w' userId) = Some (50 + randint 1 120 (rnd_reward r))
          \<and> randint 1 120 (rnd_reward r) \<in> {1..120}"
    using h by auto
qed

lemma sample_draws:
  "randint 1 100 2 = 3" "randint 1 100 9 = 10" "randint 1 100 19 = 20" "randint 1 100 35 = 36"
  "randint 1 100 96 = 97" "randint 1 99999 2 = 3" "randint 1 99999 20 = 21"
  "randint 1 3 1 = 2" "randint 1 3 (Suc 0) = 2" "randint 1 120 76 = 77"
  by (simp_all add: randint_def)

lemma sample_rng_fields:
  "rnd_roll (sample_rng x) = x" "rnd_name (sample_rng x) = []"
  "rnd_description (sample_rng x) = []" "rnd_rarity_roll (sample_rng x) = 96"
  "rnd_ids (sample_rng x) = [2, 20]" "rnd_reinforcement (sample_rng x) = 1"
  "rnd_reward (sample_rng x) = 76"
  by (simp_all add: sample_rng_def)

lemma sample_rarity: "rarity_of_roll 97 = rarity_epic"
  by (simp add: rarity_of_roll_def)

lemma sample_store_member:
  "k \<in> fst ` set (sample_store locked) \<longleftrightarrow> 1 \<le> k \<and> k \<le> 20"
proof -
  have "fst ` set (sample_store locked) = set [1..20]"
    using sample_store_keys[of locked] by (simp flip: set_map)
  then show ?thesis by simp
qed

lemma sample_store_pick:
  "pick_artifact_id [2, 20] (sample_store locked) = Some 21"
  by (simp add: sample_draws sample_store_member Let_def)

text \<open>
  Claim C6 on the sample ledger (150 coins): a call with 99 coins is refused; a call with the
  roll 10 leaves 50 coins.
\<close>

theorem draw_lottery_debit_witness:
  "draw_artifact_lottery (sample_rng 9) ''u'' 99 \<lparr>artifact_data = [], user_data = sample_ledger\<rparr>
     = Some (Inr (False, NotEnoughCoins), \<lparr>artifact_data = [], user_data = sample_ledger\<rparr>)
   \<and> (\<exists>msg w'. draw_artifact_lottery (sample_rng 9) ''u'' 150
                  \<lparr>artifact_data = [], user_data = sample_ledger\<rparr> = Some (Inr (True, msg), w')
         \<and> map_option coins (user_data w' ''u'') = Some 50)"
proof -
  define w where "w = \<lparr>artifact_data = [], user_data = sample_ledger\<rparr>"
  define u where "u = \<lparr>coins = 150, artifact_upgrade_items = 0, artifact_re_roll_items = 0\<rparr>"
  have u: "user_data w ''u'' = Some u" by (simp add: w_def u_def sample_ledger_def)
  have r: "randint 1 100 (rnd_roll (sample_rng 9)) = 10"
    by (simp add: sample_rng_fields sample_draws)
  have 1: "draw_artifact_lottery (sample_rng 9) ''u'' 99 w = Some (Inr (False, NotEnoughCoins), w)"
    using draw_lottery_debit[of 99 "sample_rng 9" "''u''" w u] by simp
  from draw_lottery_debit[of 150 "sample_rng 9" "''u''" w u] u r
  obtain out w' where d: "draw_artifact_lottery (sample_rng 9) ''u'' 150 w = Some (out, w')"
    by auto
  with draw_lottery_debit[of 150 "sample_rng 9" "''u''" w u] u r
  have "(\<exists>msg. out = Inr (True, msg)) \<and> map_option coins (user_data w' ''u'') = Some 50"
    by (simp add: u_def)
  with 1 d show ?thesis unfolding w_def by blast
qed

text \<open>
  Claim C5 on the sample ledger: a roll in the artifact bucket with an empty collection, with
  the full collection of unlocked artifacts and with the full collection of locked
  artifacts, and one roll in each of the other buckets.
\<close>

theorem draw_lottery_buckets_witness:
  "draw_artifact_lottery (sample_rng 2) ''u'' 150 \<lparr>artifact_data = [], user_data = sample_ledger\<rparr>
     = Some (Inr (True, FoundArtifact (Artifact 3 [] [] rarity_epic)),
             \<lparr>artifact_data = [(3, Artifact 3 [] [] rarity_epic)],
              user_data = sample_ledger(''u'' \<mapsto>
                 \<lparr>coins = 50, artifact_upgrade_items = 0, artifact_re_roll_items = 0\<rparr>)\<rparr>)
   \<and> draw_artifact_lottery (sample_rng 2) ''u'' 150
        \<lparr>artifact_data = sample_store False, user_data = sample_ledger\<rparr>
     = Some (Inr (True, FoundArtifact (Artifact 21 [] [] rarity_epic)),
             \<lparr>artifact_data = AList.delete 1 (sample_store False)
                                @ [(21, Artifact 21 [] [] rarity_epic)],
              user_data = sample_ledger(''u'' \<mapsto>
                 \<lparr>coins = 50, artifact_upgrade_items = 0, artifact_re_roll_items = 0\<rparr>)\<rparr>)
   \<and> draw_artifact_lottery (sample_rng 2) ''u'' 150
        \<lparr>artifact_data = sample_store True, user_data = sample_ledger\<rparr>
     = Some (Inr (True, FoundArtifact (Artifact 21 [] [] rarity_epic)),
             \<lparr>artifact_data = sample_store True,
              user_data = sample_ledger(''u'' \<mapsto>
                 \<lparr>coins = 50, artifact_upgrade_items = 50, artifact_re_roll_items = 0\<rparr>)\<rparr>)
   \<and> draw_artifact_lottery (sample_rng 9) ''u'' 150 \<lparr>artifact_data = [], user_data = sample_ledger\<rparr>
     = Some (Inr (True, GotReRollItem),
             \<lparr>artifact_data = [],
              user_data = sample_ledger(''u'' \<mapsto>
                 \<lparr>coins = 50, artifact_upgrade_items = 0, artifact_re_roll_items = 1\<rparr>)\<rparr>)
   \<and> draw_artifact_lottery (sample_rng 19) ''u'' 150 \<lparr>artifact_data = [], user_data = sample_ledger\<rparr>
     = Some (Inr (True, GotUpgradeItems 2),
             \<lparr>artifact_data = [],
              user_data = sample_ledger(''u'' \<mapsto>
                 \<lparr>coins = 50, artifact_upgrade_items = 2, artifact_re_roll_items = 0\<rparr>)\<rparr>)
   \<and> draw_artifact_lottery (sample_rng 35) ''u'' 150 \<lparr>artifact_data = [], user_data = sample_ledger\<rparr>
     = Some (Inr (True, GotCoins 77),
             \<lparr>artifact_data = [],
              user_data = sample_ledger(''u'' \<mapsto>
                 \<lparr>coins = 127, artifact_upgrade_items = 0, artifact_re_roll_items = 0\<rparr>)\<rparr>)"
proof -
  define u where "u = \<lparr>coins = 150, artifact_upgrade_items = 0, artifact_re_roll_items = 0\<rparr>"
  have u: "user_data \<lparr>artifact_data = d, user_data = sample_ledger\<rparr> ''u'' = Some u" for d
    by (simp add: u_def sample_ledger_def)
  have c: "(100::int) \<le> 150" by simp
  note f = sample_rng_fields sample_draws sample_rarity
  have 1: "draw_artifact_lottery (sample_rng 2) ''u'' 150
             \<lparr>artifact_data = [], user_data = sample_ledger\<rparr>
     = Some (Inr (True, FoundArtifact (Artifact 3 [] [] rarity_epic)),
             \<lparr>artifact_data = [(3, Artifact 3 [] [] rarity_epic)],
              user_data = sample_ledger(''u'' \<mapsto> u\<lparr>coins := coins u - 100\<rparr>)\<rparr>)"
  proof -
    have h: "randint 1 100 (rnd_roll (sample_rng 2)) \<in> {1..5}
         \<and> pick_artifact_id (rnd_ids (sample_rng 2))
             (artifact_data \<lparr>artifact_data = [], user_data = sample_ledger\<rparr>) = Some 3
         \<and> length (artifact_data \<lparr>artifact_data = [], user_data = sample_ledger\<rparr>) < 20"
      by (simp add: f Let_def)
    from draw_lottery_buckets[OF c u[of "[]"], where r = "sample_rng 2" and k = 3] h
    have "draw_artifact_lottery (sample_rng 2) ''u'' 150
            \<lparr>artifact_data = [], user_data = sample_ledger\<rparr> =
         Some (Inr (True, FoundArtifact
                  (Artifact 3 (rnd_name (sample_rng 2)) (rnd_description (sample_rng 2))
                     (rarity_of_roll (randint 1 100 (rnd_rarity_roll (sample_rng 2)))))),
               \<lparr>artifact_data = [], user_data = sample_ledger\<rparr>
                \<lparr>user_data := (user_data \<lparr>artifact_data = [], user_data = sample_ledger\<rparr>)
                                 (''u'' \<mapsto> u\<lparr>coins := coins u - 100\<rparr>),
                 artifact_data := artifact_data \<lparr>artifact_data = [], user_data = sample_ledger\<rparr> @
                   [(3, Artifact 3 (rnd_name (sample_rng 2)) (rnd_description (sample_rng 2))
                          (rarity_of_roll (randint 1 100 (rnd_rarity_roll (sample_rng 2)))))]\<rparr>)"
      by blast
    then show ?thesis by (simp add: f)
  qed
  have 2: "draw_artifact_lottery (sample_rng 2) ''u'' 150
             \<lparr>artifact_data = sample_store False, user_data = sample_ledger\<rparr>
     = Some (Inr (True, FoundArtifact (Artifact 21 [] [] rarity_epic)),
             \<lparr>artifact_data = AList.delete 1 (sample_store False)
                                @ [(21, Artifact 21 [] [] rarity_epic)],
              user_data = sample_ledger(''u'' \<mapsto> u\<lparr>coins := coins u - 100\<rparr>)\<rparr>)"
  proof -
    have h: "randint 1 100 (rnd_roll (sample_rng 2)) \<in> {1..5}
         \<and> pick_artifact_id (rnd_ids (sample_rng 2))
             (artifact_data \<lparr>artifact_data = sample_store False, user_data = sample_ledger\<rparr>)
             = Some 21
         \<and> 20 \<le> length (artifact_data \<lparr>artifact_data = sample_store False,
                                        user_data = sample_ledger\<rparr>)
         \<and> lowest_level_artifact_id (artifact_data \<lparr>artifact_data = sample_store False,
                                        user_data = sample_ledger\<rparr>) = Some 1"
      by (simp add: f sample_store_member sample_store_length sample_store_lowest Let_def)
    from draw_lottery_buckets[OF c u[of "sample_store False"], where r = "sample_rng 2" and k = 21 and lid = 1] h
    have "draw_artifact_lottery (sample_rng 2) ''u'' 150
            \<lparr>artifact_data = sample_store False, user_data = sample_ledger\<rparr> =
         Some (Inr (True, FoundArtifact
                  (Artifact 21 (rnd_name (sample_rng 2)) (rnd_description (sample_rng 2))
                     (rarity_of_roll (randint 1 100 (rnd_rarity_roll (sample_rng 2)))))),
               \<lparr>artifact_data = sample_store False, user_data = sample_ledger\<rparr>
                \<lparr>user_data := (user_data \<lparr>artifact_data = sample_store False,
                                           user_data = sample_ledger\<rparr>)
                                 (''u'' \<mapsto> u\<lparr>coins := coins u - 100\<rparr>),
                 artifact_data := AList.delete 1 (artifact_data
                      \<lparr>artifact_data = sample_store False, user_data = sample_ledger\<rparr>) @
                   [(21, Artifact 21 (rnd_name (sample_rng 2)) (rnd_description (sample_rng 2))
                          (rarity_of_roll (randint 1 100 (rnd_rarity_roll (sample_rng 2)))))]\<rparr>)"
      by blast
    then show ?thesis by (simp add: f)
  qed
  have 3: "draw_artifact_lottery (sample_rng 2) ''u'' 150
             \<lparr>artifact_data = sample_store True, user_data = sample_ledger\<rparr>
     = Some (Inr (True, FoundArtifact (Artifact 21 [] [] rarity_epic)),
             \<lparr>artifact_data = sample_store True,
              user_data = sample_ledger(''u'' \<mapsto>
                 u\<lparr>coins := coins u - 100,
                   artifact_upgrade_items := artifact_upgrade_items u + 50\<rparr>)\<rparr>)"
  proof -
    have h: "randint 1 100 (rnd_roll (sample_rng 2)) \<in> {1..5}
         \<and> pick_artifact_id (rnd_ids (sample_rng 2))
             (artifact_data \<lparr>artifact_data = sample_store True, user_data = sample_ledger\<rparr>)
             = Some 21
         \<and> 20 \<le> length (artifact_data \<lparr>artifact_data = sample_store True,
                                        user_data = sample_ledger\<rparr>)
         \<and> (\<forall>(i, b) \<in> set (artifact_data \<lparr>artifact_data = sample_store True,
                                        user_data = sample_ledger\<rparr>). is_locked b)"
      using sample_store_locked[of True]
      by (simp add: f sample_store_member sample_store_length Let_def)
    from draw_lottery_buckets[OF c u[of "sample_store True"], where r = "sample_rng 2" and k = 21] h
    have "draw_artifact_lottery (sample_rng 2) ''u'' 150
            \<lparr>artifact_data = sample_store True, user_data = sample_ledger\<rparr> =
         Some (Inr (True, FoundArtifact
                  (Artifact 21 (rnd_name (sample_rng 2)) (rnd_description (sample_rng 2))
                     (rarity_of_roll (randint 1 100 (rnd_rarity_roll (sample_rng 2)))))),
               \<lparr>artifact_data = sample_store True, user_data = sample_ledger\<rparr>
                \<lparr>user_data := (user_data \<lparr>artifact_data = sample_store True,
                                           user_data = sample_ledger\<rparr>)
                    (''u'' \<mapsto>
                    u\<lparr>coins := coins u - 100,
                      artifact_upgrade_items := artifact_upgrade_items u
                        + (if randint 1 100 (rnd_rarity_roll (sample_rng 2)) \<le> 50 then 1
                           else if randint 1 100 (rnd_rarity_roll (sample_rng 2)) \<le> 80 then 5
                           else if randint 1 100 (rnd_rarity_roll (sample_rng 2)) \<le> 95 then 20
                           else if randint 1 100 (rnd_rarity_roll (sample_rng 2)) \<le> 99 then 50
                           else 100)\<rparr>)\<rparr>)"
      by blast
    then show ?thesis by (simp add: f)
  qed
  have 4: "draw_artifact_lottery (sample_rng 9) ''u'' 150
             \<lparr>artifact_data = [], user_data = sample_ledger\<rparr>
     = Some (Inr (True, GotReRollItem),
             \<lparr>artifact_data = [],
              user_data = sample_ledger(''u'' \<mapsto>
                    u\<lparr>coins := coins u - 100,
                      artifact_re_roll_items := artifact_re_roll_items u + 1\<rparr>)\<rparr>)"
    using draw_lottery_buckets[OF c u[of "[]"], where r = "sample_rng 9"] by (simp add: f)
  have 5: "draw_artifact_lottery (sample_rng 19) ''u'' 150
             \<lparr>artifact_data = [], user_data = sample_ledger\<rparr>
     = Some (Inr (True, GotUpgradeItems 2),
             \<lparr>artifact_data = [],
              user_data = sample_ledger(''u'' \<mapsto>
                    u\<lparr>coins := coins u - 100,
                      artifact_upgrade_items := artifact_upgrade_items u + 2\<rparr>)\<rparr>)"
    using draw_lottery_buckets[OF c u[of "[]"], where r = "sample_rng 19"] by (simp add: f)
  have 6: "draw_artifact_lottery (sample_rng 35) ''u'' 150
             \<lparr>artifact_data = [], user_data = sample_ledger\<rparr>
     = Some (Inr (True, GotCoins 77),
             \<lparr>artifact_data = [],
              user_data = sample_ledger(''u'' \<mapsto> u\<lparr>coins := coins u - 100 + 77\<rparr>)\<rparr>)"
    using draw_lottery_buckets[OF c u[of "[]"], where r = "sample_rng 35"] by (simp add: f)
  show ?thesis using 1 2 3 4 5 6 by (simp add: u_def)
qed

section \<open>Stock trading\<close>

lemma fee_of_pos: "fee_of t = Inr f \<Longrightarrow> 1 \<le> f"
  by (auto simp: fee_of_def split: sum.splits if_splits)

lemma fee_of_formula:
  assumes "fee_of t = Inr f"
  shows "\<exists>ft c. float_of_int t = Inr ft \<and> py_ceil (fmul ft (Fin lit_0_05)) = Inr c
           \<and> f = max 1 c"
proof -
  from assms obtain ft c where v: "float_of_int t = Inr ft"
    "py_ceil (fmul ft (Fin lit_0_05)) = Inr c" "f = (if c < 1 then 1 else c)"
    by (auto simp: fee_of_def split: sum.splits)
  from v(3) have "f = max 1 c" by (simp add: max_def)
  with v(1,2) show ?thesis by blast
qed

lemma total_price_of_formula:
  assumes "total_price_of price q = Inr t"
  shows "\<exists>fq. float_of_int q = Inr fq \<and> py_round (fmul (Fin price) fq) = Inr t"
  using assms by (auto simp: total_price_of_def split: sum.splits)

lemma fmul_val: "\<bar>a * b\<bar> < 2 ^ 60 \<Longrightarrow> fl (a * b) = y \<Longrightarrow> fmul (Fin a) (Fin b) = Fin y"
  by (simp add: fmul_fin to_float_fin)

lemma fadd_val: "\<bar>a + b\<bar> < 2 ^ 60 \<Longrightarrow> fl (a + b) = y \<Longrightarrow> fadd (Fin a) (Fin b) = Fin y"
  by (simp add: fadd_fin to_float_fin)

lemma sample_floats:
  "fmul (Fin 1) (Fin 1000) = Fin 1000"
  "fmul (Fin 1000) (Fin lit_0_05) = Fin 50"
  "fadd (Fin 1) (Fin 0) = Fin 1"
  "fmul (Fin 10) (Fin 1) = Fin 10"
  "fmul (Fin (- lit_0_01)) (Fin 100) = Fin (- 1)"
  "fadd (Fin 0) (Fin (- 1)) = Fin (- 1)"
proof -
  show "fmul (Fin 1) (Fin 1000) = Fin 1000" by (rule fmul_val, simp, code_simp)
  show "fmul (Fin 1000) (Fin lit_0_05) = Fin 50"
    by (rule fmul_val, simp add: lit_0_05_def, code_simp)
  show "fadd (Fin 1) (Fin 0) = Fin 1" by (rule fadd_val, simp, code_simp)
  show "fmul (Fin 10) (Fin 1) = Fin 10" by (rule fmul_val, simp, code_simp)
  show "fmul (Fin (- lit_0_01)) (Fin 100) = Fin (- 1)"
    by (rule fmul_val, simp add: lit_0_01_def, code_simp)
  show "fadd (Fin 0) (Fin (- 1)) = Fin (- 1)" by (rule fadd_val, simp, code_simp)
qed

lemma sample_conversions:
  "float_of_int 1000 = Inr (Fin 1000)" "float_of_int 100 = Inr (Fin 100)"
  using float_of_int_exact[of 1000] float_of_int_exact[of 100] by simp_all

lemma sample_trade_values:
  "total_price_of 1 1000 = Inr 1000"
  "fee_of 1000 = Inr 50"
  "required_per_unit_of (Fin 0) = Inr 10"
  "update_weight (- lit_0_01) ''01'' 1000 Map.empty = [''01'' \<mapsto> Fin (- 1)]"
proof -
  show "total_price_of 1 1000 = Inr 1000"
    by (simp add: total_price_of_def sample_conversions sample_floats round_half_even_def)
  show "fee_of 1000 = Inr 50"
    by (simp add: fee_of_def sample_conversions sample_floats)
  show r: "required_per_unit_of (Fin 0) = Inr 10"
    by (simp add: required_per_unit_of_def sample_floats round_half_even_def)
  show "update_weight (- lit_0_01) ''01'' 1000 Map.empty = [''01'' \<mapsto> Fin (- 1)]"
    by (simp add: update_weight_def dict_get_def r Let_def sample_conversions sample_floats)
qed

text \<open>
  Claim C3 at a concrete input: a stock without stored weight (weight 0) and a user with
  2000 gold who buys 1000 shares at price 1. The purchase succeeds; 10 shares make one unit,
  so 100 units are counted and the stored weight becomes \<open>0 + (-0.01 * 100) = -1.0\<close>, below
  the bound \<open>-0.2\<close>. Neither command clamps the weight it stores.
\<close>

theorem buy_pushes_weight_out_of_bounds:
  "fst (BuyStockCommand_execute ''u'' ''01'' 1000 sample_market) = Inr (True, Bought 1000 50)
   \<and> stock_weight sample_market ''01'' = None
   \<and> stock_weight (snd (BuyStockCommand_execute ''u'' ''01'' 1000 sample_market)) ''01''
       = Some (Fin (- 1))
   \<and> \<not> (- (2 / 10) \<le> (- 1 :: rat))"
  by (simp add: BuyStockCommand_execute_def sample_market_def sample_trade_values get_gold_def
      dict_get_def Let_def)

lemma buy_success:
  assumes "fst (BuyStockCommand_execute uid symbol q m) = Inr (True, msg)"
    and "stock_price m symbol = Some price"
  shows "\<exists>t f. total_price_of price q = Inr t \<and> fee_of t = Inr f
           \<and> t + f \<le> get_gold uid (boom_data m)
           \<and> stock_price (snd (BuyStockCommand_execute uid symbol q m)) = stock_price m
           \<and> (0 < get_gold uid (boom_data m) \<longrightarrow>
                get_gold uid (boom_data (snd (BuyStockCommand_execute uid symbol q m)))
                  = get_gold uid (boom_data m) - (t + f))"
proof -
  from assms obtain t f where q: "0 < q" and t: "total_price_of price q = Inr t"
    and f: "fee_of t = Inr f" and g: "t + f \<le> get_gold uid (boom_data m)"
    by (auto simp: BuyStockCommand_execute_def Let_def split: if_splits sum.splits)
  have p: "stock_price (snd (BuyStockCommand_execute uid symbol q m)) = stock_price m"
    using assms(2) q t f g by (simp add: BuyStockCommand_execute_def Let_def)
  have "get_gold uid (boom_data (snd (BuyStockCommand_execute uid symbol q m)))
           = get_gold uid (boom_data m) - (t + f)"
    if pos: "0 < get_gold uid (boom_data m)"
  proof -
    from pos obtain u g0 where u: "boom_data m uid = Some u" "gold u = Some g0"
      by (auto simp: get_gold_def dict_get_def split: option.splits)
    then have gg: "get_gold uid (boom_data m) = g0" by (simp add: get_gold_def dict_get_def)
    show ?thesis
      using assms(2) q t f g u gg
      by (simp add: BuyStockCommand_execute_def Let_def add_gold_def get_gold_def dict_get_def)
  qed
  with t f g p show ?thesis by blast
qed

lemma sell_success:
  assumes "fst (SellStockCommand_execute uid symbol q m) = Inr (True, msg)"
    and "stock_price m symbol = Some price"
  shows "\<exists>t f. total_price_of price q = Inr t \<and> fee_of t = Inr f \<and> f < t
           \<and> get_gold uid (boom_data (snd (SellStockCommand_execute uid symbol q m)))
               = max 0 (get_gold uid (boom_data m) + (t - f))"
  using assms
  by (auto simp: SellStockCommand_execute_def Let_def get_gold_def dict_get_def
      split: if_splits option.splits sum.splits)

text \<open>
  Claim C9. When a purchase of \<open>q\<close> shares succeeds and the sale of \<open>q\<close> shares of the same
  symbol that follows at once succeeds (the price table is the same for both), the gold of
  the user after the sale is the gold before the purchase minus two fees, each fee being
  \<open>max(1, ceil(round(price * q) * 0.05))\<close>, and so strictly less.
\<close>

theorem buy_then_sell_costs_two_fees:
  assumes "fst (BuyStockCommand_execute uid symbol q m) = Inr (True, bought)"
    and "fst (SellStockCommand_execute uid symbol q
                (snd (BuyStockCommand_execute uid symbol q m))) = Inr (True, sold)"
    and "stock_price m symbol = Some price"
  shows "\<exists>fq t ft c.
           float_of_int q = Inr fq \<and> py_round (fmul (Fin price) fq) = Inr t
           \<and> float_of_int t = Inr ft \<and> py_ceil (fmul ft (Fin lit_0_05)) = Inr c
           \<and> get_gold uid (boom_data (snd (SellStockCommand_execute uid symbol q
                     (snd (BuyStockCommand_execute uid symbol q m)))))
               = get_gold uid (boom_data m) - 2 * max 1 c
           \<and> get_gold uid (boom_data (snd (SellStockCommand_execute uid symbol q
                     (snd (BuyStockCommand_execute uid symbol q m)))))
               < get_gold uid (boom_data m)"
proof -
  let ?m1 = "snd (BuyStockCommand_execute uid symbol q m)"
  from buy_success[OF assms(1,3)] obtain t f where
    t: "total_price_of price q = Inr t" and f: "fee_of t = Inr f"
    and g: "t + f \<le> get_gold uid (boom_data m)"
    and p: "stock_price ?m1 = stock_price m"
    and g1: "0 < get_gold uid (boom_data m) \<Longrightarrow>
             get_gold uid (boom_data ?m1) = get_gold uid (boom_data m) - (t + f)"
    by blast
  have p1: "stock_price ?m1 symbol = Some price" using p assms(3) by simp
  from sell_success[OF assms(2) p1] t f have lt: "f < t"
    and g2: "get_gold uid (boom_data (snd (SellStockCommand_execute uid symbol q ?m1)))
           = max 0 (get_gold uid (boom_data ?m1) + (t - f))" by auto
  have f1: "1 \<le> f" using f by (rule fee_of_pos)
  have "0 < get_gold uid (boom_data m)" using g lt f1 by linarith
  from g1[OF this] have g1': "get_gold uid (boom_data ?m1) = get_gold uid (boom_data m) - (t + f)" .
  have e: "get_gold uid (boom_data (snd (SellStockCommand_execute uid symbol q ?m1)))
      = get_gold uid (boom_data m) - 2 * f"
    using g2 g1' g lt f1 by (simp add: max_def)
  from total_price_of_formula[OF t] obtain fq where
    fq: "float_of_int q = Inr fq" "py_round (fmul (Fin price) fq) = Inr t" by blast
  from fee_of_formula[OF f] obtain ft c where
    c: "float_of_int t = Inr ft" "py_ceil (fmul ft (Fin lit_0_05)) = Inr c" "f = max 1 c"
    by blast
  have "get_gold uid (boom_data (snd (SellStockCommand_execute uid symbol q ?m1)))
      = get_gold uid (boom_data m) - 2 * max 1 c"
    using e c(3) by simp
  moreover have "get_gold uid (boom_data (snd (SellStockCommand_execute uid symbol q ?m1)))
      < get_gold uid (boom_data m)"
    using e f1 by simp
  ultimately show ?thesis using fq c(1,2) by blast
qed

text \<open>
  Claim C9 on the sample market: buying and selling 1000 shares at price 1 costs two fees of
  50 gold.
\<close>

theorem buy_then_sell_costs_two_fees_witness:
  "fst (BuyStockCommand_execute ''u'' ''01'' 1000 sample_market) = Inr (True, Bought 1000 50)
   \<and> fst (SellStockCommand_execute ''u'' ''01'' 1000
            (snd (BuyStockCommand_execute ''u'' ''01'' 1000 sample_market)))
       = Inr (True, Sold 1000 50)
   \<and> get_gold ''u'' (boom_data sample_market) = 2000
   \<and> get_gold ''u'' (boom_data (snd (SellStockCommand_execute ''u'' ''01'' 1000
                  (snd (BuyStockCommand_execute ''u'' ''01'' 1000 sample_market))))) = 1900"
proof -
  have b: "fst (BuyStockCommand_execute ''u'' ''01'' 1000 sample_market)
             = Inr (True, Bought 1000 50)"
    by (simp add: BuyStockCommand_execute_def sample_market_def sample_trade_values get_gold_def
        dict_get_def Let_def)
  have s: "fst (SellStockCommand_execute ''u'' ''01'' 1000
                  (snd (BuyStockCommand_execute ''u'' ''01'' 1000 sample_market)))
             = Inr (True, Sold 1000 50)"
    by (simp add: SellStockCommand_execute_def BuyStockCommand_execute_def sample_market_def
        sample_trade_values get_gold_def add_gold_def dict_get_def Let_def)
  have p: "stock_price sample_market ''01'' = Some 1" by (simp add: sample_market_def)
  have g: "get_gold ''u'' (boom_data sample_market) = 2000"
    by (simp add: sample_market_def get_gold_def dict_get_def)
  from buy_then_sell_costs_two_fees[OF b s p] obtain fq t ft c where
    v: "float_of_int 1000 = Inr fq" "py_round (fmul (Fin 1) fq) = Inr t"
       "float_of_int t = Inr ft" "py_ceil (fmul ft (Fin lit_0_05)) = Inr c"
    and e: "get_gold ''u'' (boom_data (snd (SellStockCommand_execute ''u'' ''01'' 1000
                  (snd (BuyStockCommand_execute ''u'' ''01'' 1000 sample_market)))))
               = get_gold ''u'' (boom_data sample_market) - 2 * max 1 c"
    by blast
  have "fq = Fin 1000" using v(1) by (simp add: sample_conversions)
  then have "t = 1000" using v(2) by (simp add: sample_floats round_half_even_def)
  then have "ft = Fin 1000" using v(3) by (simp add: sample_conversions)
  then have "c = 50" using v(4) by (simp add: sample_floats)
  then have "get_gold ''u'' (boom_data (snd (SellStockCommand_execute ''u'' ''01'' 1000
                  (snd (BuyStockCommand_execute ''u'' ''01'' 1000 sample_market))))) = 1900"
    using e g by simp
  with b s g show ?thesis by blast
qed

end
